theory Spec2Isabelle
  imports Complex_Main "HOL-Library.Word" "HOL-Library.Multiset"
begin

unbundle bit_operations_syntax

text \<open>
  A model of the Rust+ companion client: the token ledger, the sequence-number
  engine that matches responses to requests, and the camera with its index
  generator, sample position table, ray decoder and frame window. Numbers of the
  source that are used as integers are \<open>int\<close> or \<open>nat\<close>, typed arrays are lists of
  words, and every function returns the state it leaves behind.
\<close>

section \<open>Token bucket admission controller (class RustPlus)\<close>

text \<open>
  The token ledger of \<^verbatim>\<open>RustPlus\<close>. The source keeps the balances in JavaScript
  numbers; the model keeps them as exact rationals (the costs \<^verbatim>\<open>0.01\<close> and the
  pairing rate \<^verbatim>\<open>0.1\<close> are \<open>1/100\<close> and \<open>1/10\<close>). The \<^verbatim>\<open>playerId\<close> object
  is a map from the steam id to the balance; a missing key reads as \<^verbatim>\<open>undefined\<close>.
\<close>

record RustPlusRequestTokens =
  connection :: rat
  playerId :: "string \<rightharpoonup> rat"
  serverPairing :: rat

datatype ConsumeTokensError =
  NoError | Unknown | NotEnoughConnectionTokens | NotEnoughPlayerIdTokens | WaitReplenishTimeout

definition MAX_REQUESTS_PER_IP_ADDRESS :: rat where
  "MAX_REQUESTS_PER_IP_ADDRESS = 50"

definition REQUESTS_PER_IP_REPLENISH_RATE :: rat where
  "REQUESTS_PER_IP_REPLENISH_RATE = 15"

definition MAX_REQUESTS_PER_PLAYER_ID :: rat where
  "MAX_REQUESTS_PER_PLAYER_ID = 25"

definition REQUESTS_PER_PLAYER_ID_REPLENISH_RATE :: rat where
  "REQUESTS_PER_PLAYER_ID_REPLENISH_RATE = 3"

definition MAX_REQUESTS_FOR_SERVER_PAIRING :: rat where
  "MAX_REQUESTS_FOR_SERVER_PAIRING = 5"

definition REQUESTS_FOR_SERVER_PAIRING_REPLENISH_RATE :: rat where
  "REQUESTS_FOR_SERVER_PAIRING_REPLENISH_RATE = 1 / 10"

text \<open>The ledger as the constructor leaves it.\<close>

definition initial_tokens :: RustPlusRequestTokens where
  "initial_tokens =
     \<lparr> connection = MAX_REQUESTS_PER_IP_ADDRESS,
       playerId = Map.empty,
       serverPairing = MAX_REQUESTS_FOR_SERVER_PAIRING \<rparr>"

definition replenishConnectionTokens :: "RustPlusRequestTokens \<Rightarrow> RustPlusRequestTokens" where
  "replenishConnectionTokens s =
     (if connection s < MAX_REQUESTS_PER_IP_ADDRESS
      then s\<lparr>connection :=
               min (connection s + REQUESTS_PER_IP_REPLENISH_RATE) MAX_REQUESTS_PER_IP_ADDRESS\<rparr>
      else s)"

text \<open>The \<^verbatim>\<open>for ... in\<close> loop visits every key of the object once.\<close>

definition replenishPlayerIdTokens :: "RustPlusRequestTokens \<Rightarrow> RustPlusRequestTokens" where
  "replenishPlayerIdTokens s =
     s\<lparr>playerId := (\<lambda>p. case playerId s p of
          None \<Rightarrow> None
        | Some b \<Rightarrow>
            (if b < MAX_REQUESTS_PER_PLAYER_ID
             then Some (min (b + REQUESTS_PER_PLAYER_ID_REPLENISH_RATE) MAX_REQUESTS_PER_PLAYER_ID)
             else Some b))\<rparr>"

definition replenishServerPairingTokens :: "RustPlusRequestTokens \<Rightarrow> RustPlusRequestTokens" where
  "replenishServerPairingTokens s =
     (if serverPairing s < MAX_REQUESTS_FOR_SERVER_PAIRING
      then s\<lparr>serverPairing :=
               min (serverPairing s + REQUESTS_FOR_SERVER_PAIRING_REPLENISH_RATE)
                   MAX_REQUESTS_FOR_SERVER_PAIRING\<rparr>
      else s)"

definition replenishTask :: "RustPlusRequestTokens \<Rightarrow> RustPlusRequestTokens" where
  "replenishTask s =
     replenishServerPairingTokens (replenishPlayerIdTokens (replenishConnectionTokens s))"

text \<open>
  \<^verbatim>\<open>consumeTokens\<close> is an async function: it runs without interruption up to a
  \<^verbatim>\<open>return\<close> or up to \<^verbatim>\<open>await this.delay(100)\<close>, where timers and other callers
  run before it resumes at the loop test. One such uninterrupted stretch is one
  function of the model; it ends in \<open>Returned e\<close> or in \<open>Sleeping\<close>. The two readings
  of \<^verbatim>\<open>Date.now()\<close> enter as the elapsed time since \<^verbatim>\<open>startTime\<close> seen by the
  loop test.
\<close>

datatype outcome = Returned ConsumeTokensError | Sleeping

text \<open>A comparison with \<^verbatim>\<open>undefined\<close> is false.\<close>

definition hasEnoughTokens :: "string \<Rightarrow> rat \<Rightarrow> RustPlusRequestTokens \<Rightarrow> bool" where
  "hasEnoughTokens pid tokens s \<longleftrightarrow>
     connection s \<ge> tokens \<and> (case playerId s pid of None \<Rightarrow> False | Some b \<Rightarrow> b \<ge> tokens)"

text \<open>
  One pass through \<^verbatim>\<open>while (!hasEnoughTokens())\<close> and the two assignments after it.
  The debit is reached only when the identity has a balance.
\<close>

definition consumeTokens_wait ::
  "string \<Rightarrow> rat \<Rightarrow> int \<Rightarrow> int \<Rightarrow> RustPlusRequestTokens \<Rightarrow> outcome \<times> RustPlusRequestTokens" where
  "consumeTokens_wait pid tokens elapsedTime timeoutMs s =
     (if \<not> hasEnoughTokens pid tokens s then
        (if elapsedTime \<ge> timeoutMs then (Returned WaitReplenishTimeout, s) else (Sleeping, s))
      else
        (Returned NoError,
         s\<lparr>connection := connection s - tokens,
           playerId := (playerId s)(pid := map_option (\<lambda>b. b - tokens) (playerId s pid))\<rparr>))"

definition consumeTokens ::
  "string \<Rightarrow> rat \<Rightarrow> bool \<Rightarrow> int \<Rightarrow> int \<Rightarrow> RustPlusRequestTokens
     \<Rightarrow> outcome \<times> RustPlusRequestTokens" where
  "consumeTokens pid tokens waitForReplenish elapsedTime timeoutMs s0 =
     (let s = (if pid \<notin> dom (playerId s0)
               then s0\<lparr>playerId := (playerId s0)(pid \<mapsto> MAX_REQUESTS_PER_PLAYER_ID)\<rparr>
               else s0)
      in if \<not> waitForReplenish \<and> \<not> hasEnoughTokens pid tokens s then
           (if connection s \<ge> tokens then (Returned NotEnoughConnectionTokens, s)
            else if (case playerId s pid of None \<Rightarrow> False | Some b \<Rightarrow> b \<ge> tokens)
              then (Returned NotEnoughPlayerIdTokens, s)
            else (Returned Unknown, s))
         else consumeTokens_wait pid tokens elapsedTime timeoutMs s)"

text \<open>
  What can happen to the ledger, one uninterrupted stretch at a time: a call of
  \<^verbatim>\<open>consumeTokens\<close>, a sleeping call waking up at the loop test, and the 1 Hz
  interval timer running \<^verbatim>\<open>replenishTask\<close>.
\<close>

datatype ledger_event =
    Call string rat bool int int
  | Wake string rat int int
  | Tick

fun ledger_step :: "ledger_event \<Rightarrow> RustPlusRequestTokens \<Rightarrow> RustPlusRequestTokens" where
  "ledger_step (Call pid tokens w el tmo) s = snd (consumeTokens pid tokens w el tmo s)"
| "ledger_step (Wake pid tokens el tmo) s = snd (consumeTokens_wait pid tokens el tmo s)"
| "ledger_step Tick s = replenishTask s"

fun ledger_run :: "ledger_event list \<Rightarrow> RustPlusRequestTokens \<Rightarrow> RustPlusRequestTokens" where
  "ledger_run [] s = s"
| "ledger_run (e # es) s = ledger_run es (ledger_step e s)"

fun requested :: "ledger_event \<Rightarrow> rat" where
  "requested (Call pid tokens w el tmo) = tokens"
| "requested (Wake pid tokens el tmo) = tokens"
| "requested Tick = 0"

text \<open>The two invariants of the ledger: no balance is negative, none is above its ceiling.\<close>

definition never_negative :: "RustPlusRequestTokens \<Rightarrow> bool" where
  "never_negative s \<longleftrightarrow>
     0 \<le> connection s \<and> (\<forall>p b. playerId s p = Some b \<longrightarrow> 0 \<le> b) \<and> 0 \<le> serverPairing s"

definition under_ceiling :: "RustPlusRequestTokens \<Rightarrow> bool" where
  "under_ceiling s \<longleftrightarrow>
     connection s \<le> MAX_REQUESTS_PER_IP_ADDRESS \<and>
     (\<forall>p b. playerId s p = Some b \<longrightarrow> b \<le> MAX_REQUESTS_PER_PLAYER_ID) \<and>
     serverPairing s \<le> MAX_REQUESTS_FOR_SERVER_PAIRING"

section \<open>Request correlation engine (class RustPlus)\<close>

text \<open>
  The protocol messages, with the fields that the engine and the camera read. The
  generated interfaces are not part of the sources at hand; the field lists follow
  the validators (\<^verbatim>\<open>isValidAppResponse\<close>, \<^verbatim>\<open>isValidAppCameraInfo\<close>,
  \<^verbatim>\<open>isValidAppCameraRays\<close>, ...). The body of a request is a type parameter.
\<close>

record AppCameraInfo =
  width :: int
  height :: int
  controlFlags :: int

record AppCameraRays =
  sampleOffset :: int
  rayData :: "8 word list"

record AppBroadcast =
  broadcastCameraRays :: "AppCameraRays option"

record AppResponse =
  responseSeq :: nat
  error :: "string option"
  responseCameraSubscribeInfo :: "AppCameraInfo option"

record AppMessage =
  response :: "AppResponse option"
  broadcast :: "AppBroadcast option"

record 'd AppRequest =
  requestSeq :: nat
  requestPlayerId :: string
  requestPlayerToken :: int
  requestData :: 'd

datatype EmitErrorType = WebSocket | Callback

datatype readyState = CONNECTING | OPEN | CLOSING | CLOSED

text \<open>
  A callback is either a function handed in by the caller, of which the engine sees
  only whether it throws (\<open>Some message\<close>) or returns, or the closure that
  \<^verbatim>\<open>sendRequestAsync\<close> builds around its promise and its timer.
\<close>

datatype CallbackFunction =
    UserCallback "AppMessage \<Rightarrow> string option"
  | AsyncResolver nat

datatype async_result = Response AppResponse | Failure string | Rejected string

text \<open>How a call ends: it returns a value, or an exception leaves it.\<close>

datatype 'a completion = Returns 'a | Throws string

datatype 'd emitted =
    EmitError EmitErrorType string
  | EmitMessage AppMessage bool
  | EmitRequest "'d AppRequest"

text \<open>
  The collaborators behind the engine: the validators, the codec and the socket's
  \<^verbatim>\<open>send\<close>. A codec or socket failure is the message of the thrown error.
\<close>

record 'd extern =
  isValidAppRequest :: "'d AppRequest \<Rightarrow> bool"
  toBinary :: "'d AppRequest \<Rightarrow> string + 8 word list"
  ws_send :: "8 word list \<Rightarrow> string option"
  fromBinary :: "8 word list \<Rightarrow> string + AppMessage"
  isValidAppMessage :: "AppMessage \<Rightarrow> bool"

text \<open>
  \<^verbatim>\<open>seqCallbacks\<close> is a JavaScript array used sparsely: a hole reads as
  \<^verbatim>\<open>undefined\<close>, a store beyond the length extends the array with holes, and
  \<^verbatim>\<open>delete\<close> leaves a hole. \<open>invoked\<close> records each call of a callback,
  \<open>emitted\<close> each call of \<^verbatim>\<open>emit\<close>, \<open>resolved\<close> each settlement of an async
  promise. \<^verbatim>\<open>RustPlus\<close> is an \<^verbatim>\<open>EventEmitter\<close>: the listeners that its user has
  attached with \<^verbatim>\<open>on\<close> are kept per event, in the order of attachment; of a
  listener, as of a callback, the engine sees only whether it throws.
\<close>

record 'd RustPlus =
  seq :: nat
  seqCallbacks :: "CallbackFunction option list"
  ws :: "readyState option"
  tokens :: RustPlusRequestTokens
  timers :: "nat list"
  resolved :: "(nat \<times> async_result) list"
  invoked :: "(nat \<times> AppMessage) list"
  emitted :: "'d emitted list"
  errorListeners :: "(EmitErrorType \<Rightarrow> string \<Rightarrow> string option) list"
  messageListeners :: "(AppMessage \<Rightarrow> bool \<Rightarrow> string option) list"
  requestListeners :: "('d AppRequest \<Rightarrow> string option) list"

definition arr_get :: "'a option list \<Rightarrow> nat \<Rightarrow> 'a option" where
  "arr_get xs i = (if i < length xs then xs ! i else None)"

definition arr_set :: "'a option list \<Rightarrow> nat \<Rightarrow> 'a \<Rightarrow> 'a option list" where
  "arr_set xs i v =
     (if i < length xs then xs[i := Some v]
      else xs @ replicate (i - length xs) None @ [Some v])"

definition arr_delete :: "'a option list \<Rightarrow> nat \<Rightarrow> 'a option list" where
  "arr_delete xs i = (if i < length xs then xs[i := None] else xs)"

definition pending :: "'a option list \<Rightarrow> nat list" where
  "pending xs = filter (\<lambda>i. xs ! i \<noteq> None) [0..<length xs]"

definition RustPlus_new :: "'d RustPlus" where
  "RustPlus_new =
     \<lparr> seq = 0, seqCallbacks = [], ws = None, tokens = initial_tokens,
       timers = [], resolved = [], invoked = [], emitted = [],
       errorListeners = [], messageListeners = [], requestListeners = [] \<rparr>"

text \<open>
  \<^verbatim>\<open>EventEmitter.emit\<close> calls the listeners of the event one after the other, and
  an exception of a listener leaves \<^verbatim>\<open>emit\<close> at once. An \<^verbatim>\<open>error\<close> event with
  no listener attached makes \<^verbatim>\<open>emit\<close> itself throw: the first argument after the
  event name is the \<^verbatim>\<open>EmitErrorType\<close>, a number and not an Error, so that the
  exception is Node's "Unhandled error." with that number.
\<close>

fun first_thrown :: "('a \<Rightarrow> string option) list \<Rightarrow> 'a \<Rightarrow> string option" where
  "first_thrown [] a = None"
| "first_thrown (l # ls) a = (case l a of Some e \<Rightarrow> Some e | None \<Rightarrow> first_thrown ls a)"

definition unhandled_error :: "EmitErrorType \<Rightarrow> string" where
  "unhandled_error t =
     ''Unhandled error. ('' @ (case t of WebSocket \<Rightarrow> ''0'' | Callback \<Rightarrow> ''1'') @ '')''"

definition emit :: "'d emitted \<Rightarrow> 'd RustPlus \<Rightarrow> string option \<times> 'd RustPlus" where
  "emit ev s =
     ((case ev of
         EmitError t msg \<Rightarrow>
           if errorListeners s = [] then Some (unhandled_error t)
           else first_thrown (map (\<lambda>l. l t) (errorListeners s)) msg
       | EmitMessage m handled \<Rightarrow> first_thrown (map (\<lambda>l. l m) (messageListeners s)) handled
       | EmitRequest r \<Rightarrow> first_thrown (requestListeners s) r),
      s\<lparr>emitted := emitted s @ [ev]\<rparr>)"

function getNextSeq_from :: "CallbackFunction option list \<Rightarrow> nat \<Rightarrow> nat" where
  "getNextSeq_from cbs nextSeq =
     (if arr_get cbs nextSeq \<noteq> None then getNextSeq_from cbs (nextSeq + 1) else nextSeq)"
  by pat_completeness auto
termination
  by (relation "measure (\<lambda>(cbs, n). length cbs - n)") (auto simp: arr_get_def split: if_splits)

declare getNextSeq_from.simps [simp del]

definition getNextSeq :: "'d RustPlus \<Rightarrow> nat \<times> 'd RustPlus" where
  "getNextSeq s =
     (let nextSeq = getNextSeq_from (seqCallbacks s) (seq s + 1)
      in (nextSeq, s\<lparr>seq := nextSeq\<rparr>))"

text \<open>
  \<^verbatim>\<open>sendRequest\<close> returns an Error (\<open>Returns (Some message)\<close>) or nothing
  (\<open>Returns None\<close>); the \<^verbatim>\<open>emit\<close> of the \<^verbatim>\<open>request\<close> event at its end is outside
  every \<^verbatim>\<open>try\<close>, so that an exception of a listener leaves the call.
\<close>

definition sendRequest ::
  "'d extern \<Rightarrow> 'd \<Rightarrow> string \<Rightarrow> int \<Rightarrow> CallbackFunction \<Rightarrow> nat option \<Rightarrow> 'd RustPlus
     \<Rightarrow> string option completion \<times> 'd RustPlus" where
  "sendRequest X data pid ptoken callback seqArg s =
     (if ws s \<noteq> Some OPEN then (Returns (Some ''ERROR sendRequest: WebSocket is not open.''), s)
      else
        let (k, s1) = (case seqArg of None \<Rightarrow> getNextSeq s | Some k \<Rightarrow> (k, s));
            s2 = s1\<lparr>seqCallbacks := arr_set (seqCallbacks s1) k callback\<rparr>;
            dropped = s2\<lparr>seqCallbacks := arr_delete (seqCallbacks s2) k\<rparr>;
            appRequestData =
              \<lparr> requestSeq = k, requestPlayerId = pid, requestPlayerToken = ptoken,
                requestData = data \<rparr>
        in if \<not> isValidAppRequest X appRequestData
           then (Returns (Some (''ERROR sendRequest: '' @ ''AppRequest data is invalid.'')), dropped)
           else (case toBinary X appRequestData of
                   Inl msg \<Rightarrow>
                     (Returns (Some (''ERROR sendRequest AppRequest.toBinary: '' @ msg)), dropped)
                 | Inr appRequest \<Rightarrow>
                     (case ws_send X appRequest of
                        Some msg \<Rightarrow> (Returns (Some (''ERROR sendRequest ws.send: '' @ msg)), dropped)
                      | None \<Rightarrow>
                          (case emit (EmitRequest appRequestData) s2 of
                             (None, s3) \<Rightarrow> (Returns None, s3)
                           | (Some e, s3) \<Rightarrow> (Throws e, s3)))))"

text \<open>The sequence number that a call of \<^verbatim>\<open>sendRequest\<close> settles on once the socket is open.\<close>

definition chosenSeq :: "nat option \<Rightarrow> 'd RustPlus \<Rightarrow> nat" where
  "chosenSeq seqArg s = (case seqArg of None \<Rightarrow> fst (getNextSeq s) | Some k \<Rightarrow> k)"

text \<open>The \<^verbatim>\<open>AppRequest\<close> object that it assembles for that sequence number.\<close>

definition assembled :: "'d \<Rightarrow> string \<Rightarrow> int \<Rightarrow> nat option \<Rightarrow> 'd RustPlus \<Rightarrow> 'd AppRequest" where
  "assembled data pid ptoken seqArg s =
     \<lparr> requestSeq = chosenSeq seqArg s, requestPlayerId = pid, requestPlayerToken = ptoken,
       requestData = data \<rparr>"

text \<open>
  \<^verbatim>\<open>sendRequestAsync\<close>: the promise is named by its sequence number; the timer is
  armed before the request is sent and cleared when \<^verbatim>\<open>sendRequest\<close> returns an
  Error. An exception out of \<^verbatim>\<open>sendRequest\<close> leaves the executor of the promise,
  which rejects it; the timer then stays armed.
\<close>

definition sendRequestAsync ::
  "'d extern \<Rightarrow> 'd \<Rightarrow> string \<Rightarrow> int \<Rightarrow> 'd RustPlus \<Rightarrow> nat \<times> 'd RustPlus" where
  "sendRequestAsync X data pid ptoken s =
     (let (k, s1) = getNextSeq s;
          s2 = s1\<lparr>timers := timers s1 @ [k]\<rparr>;
          (result, s3) = sendRequest X data pid ptoken (AsyncResolver k) (Some k) s2
      in case result of
           Returns (Some err) \<Rightarrow>
             (k, s3\<lparr>timers := removeAll k (timers s3),
                    resolved := resolved s3 @ [(k, Failure err)]\<rparr>)
         | Returns None \<Rightarrow> (k, s3)
         | Throws e \<Rightarrow> (k, s3\<lparr>resolved := resolved s3 @ [(k, Rejected e)]\<rparr>))"

text \<open>The timer of the async request \<open>k\<close> fires, if it is still armed.\<close>

definition timeoutFired :: "nat \<Rightarrow> 'd RustPlus \<Rightarrow> 'd RustPlus" where
  "timeoutFired k s =
     (if k \<in> set (timers s)
      then s\<lparr>timers := removeAll k (timers s),
             seqCallbacks := arr_delete (seqCallbacks s) k,
             resolved := resolved s @ [(k, Failure ''Timeout reached while waiting for response.'')]\<rparr>
      else s)"

text \<open>Calling a callback: what it throws, and what it does to the engine.\<close>

fun invoke ::
  "'d extern \<Rightarrow> CallbackFunction \<Rightarrow> AppMessage \<Rightarrow> 'd RustPlus \<Rightarrow> string option \<times> 'd RustPlus" where
  "invoke X (UserCallback f) m s = (f m, s)"
| "invoke X (AsyncResolver k) m s =
     (None,
      s\<lparr>timers := removeAll k (timers s),
        resolved := resolved s @
          [(k, if \<not> isValidAppMessage X m
               then Failure (''ERROR sendRequestAsync: '' @ ''appMessage is invalid format.'')
               else (case response m of
                       None \<Rightarrow> Failure (''ERROR sendRequestAsync: '' @ ''appMessage is missing response.'')
                     | Some r \<Rightarrow> Response r))]\<rparr>)"

text \<open>
  The handler of the socket's \<^verbatim>\<open>message\<close> event, first the body of its outer
  \<^verbatim>\<open>try\<close>: the result is the message of the exception that leaves the body, if
  one does. \<open>None\<close> is a falsy \<^verbatim>\<open>data\<close>. The \<^verbatim>\<open>finally\<close> block deletes the
  entry on every way out of the inner \<^verbatim>\<open>try\<close>, also when the \<^verbatim>\<open>emit\<close> in its
  \<^verbatim>\<open>catch\<close> throws.
\<close>

definition onMessage_try ::
  "'d extern \<Rightarrow> 8 word list option \<Rightarrow> 'd RustPlus \<Rightarrow> string option \<times> 'd RustPlus" where
  "onMessage_try X data s =
     (case data of
        None \<Rightarrow> (Some ''Received empty or invalid message data.'', s)
      | Some bytes \<Rightarrow>
          (case fromBinary X bytes of
             Inl msg \<Rightarrow> (Some msg, s)
           | Inr appMessage \<Rightarrow>
               (case response appMessage of
                  None \<Rightarrow> emit (EmitMessage appMessage False) s
                | Some r \<Rightarrow>
                    (case arr_get (seqCallbacks s) (responseSeq r) of
                       None \<Rightarrow> emit (EmitMessage appMessage False) s
                     | Some callback \<Rightarrow>
                         let s1 = s\<lparr>invoked := invoked s @ [(responseSeq r, appMessage)]\<rparr>;
                             (thrown, s2) = invoke X callback appMessage s1
                         in (case thrown of
                               None \<Rightarrow>
                                 emit (EmitMessage appMessage True)
                                   (s2\<lparr>seqCallbacks :=
                                         arr_delete (seqCallbacks s2) (responseSeq r)\<rparr>)
                             | Some msg \<Rightarrow>
                                 let (rethrown, s3) =
                                       emit (EmitError Callback (''ERROR on.message: '' @ msg)) s2;
                                     s4 = s3\<lparr>seqCallbacks :=
                                            arr_delete (seqCallbacks s3) (responseSeq r)\<rparr>
                                 in (case rethrown of
                                       Some e \<Rightarrow> (Some e, s4)
                                     | None \<Rightarrow> emit (EmitMessage appMessage False) s4))))))"

text \<open>
  The whole handler: the outer \<^verbatim>\<open>catch\<close> emits an error for what the body threw.
  The result is the message of the exception that leaves the handler, if one does.
\<close>

definition onMessage ::
  "'d extern \<Rightarrow> 8 word list option \<Rightarrow> 'd RustPlus \<Rightarrow> string option \<times> 'd RustPlus" where
  "onMessage X data s =
     (case onMessage_try X data s of
        (None, s') \<Rightarrow> (None, s')
      | (Some msg, s') \<Rightarrow> emit (EmitError Callback (''ERROR on.message: '' @ msg)) s')"

text \<open>Several requests sent one after the other, each with a fresh sequence number.\<close>

fun sendRequests ::
  "'d extern \<Rightarrow> ('d \<times> string \<times> int \<times> CallbackFunction) list \<Rightarrow> 'd RustPlus
     \<Rightarrow> string option completion list \<times> 'd RustPlus" where
  "sendRequests X [] s = ([], s)"
| "sendRequests X ((data, pid, ptoken, callback) # rs) s =
     (let (r, s1) = sendRequest X data pid ptoken callback None s;
          (rs', s2) = sendRequests X rs s1
      in (r # rs', s2))"


text \<open>The translation of the server's error tag (\<^verbatim>\<open>getAppResponseError\<close>).\<close>

datatype AppResponseError =
    ResponseNoError | ResponseUnknown | ServerError | Banned | RateLimit | NotFound | WrongType
  | NoTeam | NoClan | NoMap | NoCamera | NoPlayer | AccessDenied | PlayerOnline
  | InvalidPlayerid | InvalidId | InvalidMotd | TooManySubscribers | NotEnabled | MessageNotSent

definition getAppResponseError :: "AppResponse \<Rightarrow> AppResponseError" where
  "getAppResponseError appResponse =
     (case error appResponse of
        None \<Rightarrow> ResponseNoError
      | Some e \<Rightarrow>
          if e = ''server_error'' then ServerError
          else if e = ''banned'' then Banned
          else if e = ''rate_limit'' then RateLimit
          else if e = ''not_found'' then NotFound
          else if e = ''wrong_type'' then WrongType
          else if e = ''no_team'' then NoTeam
          else if e = ''no_clan'' then NoClan
          else if e = ''no_map'' then NoMap
          else if e = ''no_camera'' then NoCamera
          else if e = ''no_player'' then NoPlayer
          else if e = ''access_denied'' then AccessDenied
          else if e = ''player_online'' then PlayerOnline
          else if e = ''invalid_playerid'' then InvalidPlayerid
          else if e = ''invalid_id'' then InvalidId
          else if e = ''invalid_motd'' then InvalidMotd
          else if e = ''too_many_subscribers'' then TooManySubscribers
          else if e = ''not_enabled'' then NotEnabled
          else if e = ''message_not_sent'' then MessageNotSent
          else ResponseUnknown)"

section \<open>Camera: sample positions, ray decoding, frame window\<close>

subsection \<open>Double precision arithmetic\<close>

text \<open>
  A JavaScript number is a binary64 value. The model keeps such a value as the
  rational it denotes, and \<open>fl64 x\<close> is the rational \<open>x\<close> rounded to the nearest
  value with 53 significant bits, ties to the even significand: with
  \<open>2^k \<le> \<bar>x\<bar> < 2^(k + 1)\<close> the unit in the last place is \<open>2^(k - 52)\<close>, and
  \<open>\<bar>x\<bar>\<close> is rounded to a multiple of it. A product or quotient of two numbers is
  the exact result rounded once. The range of exponents is not limited; the numbers
  that \<^verbatim>\<open>nextInt\<close> meets lie between \<open>2^-32\<close> and \<open>2^63\<close>, far inside it.
\<close>

function bitlength :: "int \<Rightarrow> nat" where
  "bitlength n = (if n \<le> 0 then 0 else Suc (bitlength (n div 2)))"
  by pat_completeness auto
termination
  by (relation "measure nat") auto

declare bitlength.simps [simp del]

definition pow2 :: "int \<Rightarrow> rat" where
  "pow2 k = (if 0 \<le> k then 2 ^ nat k else 1 / 2 ^ nat (- k))"

text \<open>The \<open>k\<close> with \<open>2^k \<le> x < 2^(k + 1)\<close>, for a positive \<open>x\<close>.\<close>

definition binade :: "rat \<Rightarrow> int" where
  "binade x =
     (if 1 \<le> x then int (bitlength \<lfloor>x\<rfloor>) - 1
      else - int (bitlength (\<lceil>1 / x\<rceil> - 1)))"

definition round_even :: "rat \<Rightarrow> int" where
  "round_even m =
     (let f = \<lfloor>m\<rfloor>; d = m - of_int f
      in if d < 1 / 2 then f else if 1 / 2 < d then f + 1 else if even f then f else f + 1)"

definition fl64 :: "rat \<Rightarrow> rat" where
  "fl64 x =
     (if x = 0 then 0
      else let ulp = pow2 (binade \<bar>x\<bar> - 52)
           in sgn x * of_int (round_even (\<bar>x\<bar> / ulp)) * ulp)"

text \<open>The integer part of a number, as \<^verbatim>\<open>| 0\<close> takes it before it wraps to 32 bits.\<close>

definition js_trunc :: "rat \<Rightarrow> int" where
  "js_trunc y = (if 0 \<le> y then \<lfloor>y\<rfloor> else \<lceil>y\<rceil>)"

subsection \<open>IndexGenerator\<close>

text \<open>
  The generator's state is a 32-bit integer; \<^verbatim>\<open>| 0\<close> is the conversion to a signed
  32-bit value. In \<^verbatim>\<open>nextInt\<close> the product of the state and the bound, and its
  quotient by 4294967295, are double precision operations, each rounded; so are
  the sum and the difference in the branch for a negative \<open>t\<close>. The sum in
  \<^verbatim>\<open>nextState\<close> stays below \<open>2^53\<close> and is exact.
\<close>

record IndexGenerator =
  state :: "32 word"

definition toInt32 :: "int \<Rightarrow> int" where
  "toInt32 x = sint (word_of_int x :: 32 word)"

definition nextState :: "IndexGenerator \<Rightarrow> int \<times> IndexGenerator" where
  "nextState g =
     (let e0 = state g;
          t = sint e0;
          e1 = e0 XOR push_bit 13 e0;
          e2 = e1 XOR drop_bit 17 e1;
          e3 = e2 XOR push_bit 5 e2
      in (if t \<ge> 0 then t else 4294967295 + t - 1, g\<lparr>state := e3\<rparr>))"

definition nextInt :: "int \<Rightarrow> IndexGenerator \<Rightarrow> int \<times> IndexGenerator" where
  "nextInt e g =
     (let (s, g') = nextState g;
          t0 = toInt32 (js_trunc (fl64 (fl64 (of_int s * of_int (toInt32 e)) / 4294967295)));
          t = (if t0 < 0 then js_trunc (fl64 (fl64 (of_int e + of_int t0) - 1)) else t0)
      in (toInt32 t, g'))"

definition IndexGenerator_new :: "int \<Rightarrow> IndexGenerator" where
  "IndexGenerator_new e = snd (nextState \<lparr>state = word_of_int e\<rparr>)"

subsection \<open>The sample position buffer\<close>

text \<open>
  \<^verbatim>\<open>samplePositionBuffer\<close> is an \<^verbatim>\<open>Int16Array\<close>: it stores the low 16 bits of
  what is written and reads them back signed; a read outside the array is
  \<^verbatim>\<open>undefined\<close> (\<open>None\<close>), a write outside it is dropped, and writing
  \<^verbatim>\<open>undefined\<close> stores 0. A negative length raises a RangeError.
\<close>

definition i16_get :: "16 word list \<Rightarrow> int \<Rightarrow> int option" where
  "i16_get buf i = (if 0 \<le> i \<and> i < int (length buf) then Some (sint (buf ! nat i)) else None)"

definition i16_set :: "16 word list \<Rightarrow> int \<Rightarrow> int option \<Rightarrow> 16 word list" where
  "i16_set buf i v =
     (if 0 \<le> i \<and> i < int (length buf)
      then buf[nat i := (case v of None \<Rightarrow> 0 | Some x \<Rightarrow> word_of_int x)]
      else buf)"

definition populate :: "int \<Rightarrow> int \<Rightarrow> 16 word list option" where
  "populate w h =
     (if w * h * 2 < 0 then None
      else
        let written = concat (map (\<lambda>y. concat (map (\<lambda>x. [word_of_nat x, word_of_nat y])
                                                    [0..<nat w])) [0..<nat h])
        in Some (written @ replicate (nat (w * h * 2) - length written) 0))"

fun shuffle :: "nat \<Rightarrow> IndexGenerator \<Rightarrow> 16 word list \<Rightarrow> 16 word list" where
  "shuffle 0 g buf = buf"
| "shuffle (Suc n) g buf =
     (let R = int (Suc n);
          C = 2 * R;
          (j, g') = nextInt (R + 1) g;
          I = 2 * j;
          P = i16_get buf C;
          k = i16_get buf (C + 1);
          A = i16_get buf I;
          F = i16_get buf (I + 1);
          buf1 = i16_set buf I P;
          buf2 = i16_set buf1 (I + 1) k;
          buf3 = i16_set buf2 C A;
          buf4 = i16_set buf3 (C + 1) F
      in shuffle n g' buf4)"

definition samplePositions :: "int \<Rightarrow> int \<Rightarrow> 16 word list option" where
  "samplePositions w h =
     map_option (shuffle (nat (w * h - 1)) (IndexGenerator_new 1337)) (populate w h)"

text \<open>The table read as the source reads it: entry \<open>2k\<close> is x, entry \<open>2k + 1\<close> is y.\<close>

definition positions :: "16 word list \<Rightarrow> (int \<times> int) list" where
  "positions buf = map (\<lambda>k. (sint (buf ! (2 * k)), sint (buf ! (2 * k + 1)))) [0..<length buf div 2]"

subsection \<open>Ray decoding\<close>

text \<open>
  A ray is the triple \<open>(t, r, i)\<close> of the source; \<open>None\<close> stands for a value that
  is not a number (\<^verbatim>\<open>undefined\<close> or NaN). \<^verbatim>\<open>rayData\<close> is a \<^verbatim>\<open>Uint8Array\<close>:
  a read at or beyond its length is \<^verbatim>\<open>undefined\<close>, which the bit operators take as 0.
\<close>

type_synonym ray = "int option \<times> int option \<times> int option"

definition rayData_at :: "8 word list \<Rightarrow> nat \<Rightarrow> int option" where
  "rayData_at d i = (if i < length d then Some (uint (d ! i)) else None)"

definition bits :: "int option \<Rightarrow> int" where
  "bits v = (case v of None \<Rightarrow> 0 | Some x \<Rightarrow> x)"

definition slot :: "int \<Rightarrow> int \<Rightarrow> int option \<Rightarrow> nat" where
  "slot t r i =
     (case i of
        None \<Rightarrow> 0
      | Some m \<Rightarrow> nat ((3 * (t div 128) + 5 * (r div 16) + 7 * m) AND 63))"

text \<open>
  The ray decoding logic of one pass through the loop, from the read of the first
  byte: the ray, the new \<^verbatim>\<open>dataPointer\<close>, the new lookback table and the indices
  of \<^verbatim>\<open>rayData\<close> that were read, in order.
\<close>

definition decodeRay ::
  "8 word list \<Rightarrow> nat \<Rightarrow> ray list \<Rightarrow> ray \<times> nat \<times> ray list \<times> nat list" where
  "decodeRay d dp lookback =
     (let n = bits (rayData_at d dp) in
      if n = 255 then
        let l = rayData_at d (dp + 1);
            o' = rayData_at d (dp + 2);
            s = rayData_at d (dp + 3);
            t = (push_bit 2 (bits l)) OR (drop_bit 6 (bits o'));
            r = 63 AND bits o';
            u = slot t r s
        in ((Some t, Some r, s), dp + 4, lookback[u := (Some t, Some r, s)],
            [dp, dp + 1, dp + 2, dp + 3])
      else
        let c = 192 AND n in
        if c = 0 then
          (lookback ! nat (63 AND n), dp + 1, lookback, [dp])
        else if c = 64 then
          let (b, w, h) = lookback ! nat (63 AND n);
              g = bits (rayData_at d (dp + 1))
          in ((map_option (\<lambda>b. b + (drop_bit 3 g - 15)) b,
               map_option (\<lambda>w. w + ((7 AND g) - 3)) w, h),
              dp + 2, lookback, [dp, dp + 1])
        else if c = 128 then
          let (I, P, k) = lookback ! nat (63 AND n);
              t = (case (I, rayData_at d (dp + 1)) of
                     (Some I', Some v) \<Rightarrow> Some (I' + (v - 127))
                   | _ \<Rightarrow> None)
          in ((t, P, k), dp + 2, lookback, [dp, dp + 1])
        else
          let A = rayData_at d (dp + 1);
              F = rayData_at d (dp + 2);
              t = (push_bit 2 (bits A)) OR (drop_bit 6 (bits F));
              r = 63 AND bits F;
              i = 63 AND n;
              D = slot t r (Some i)
          in ((Some t, Some r, Some i), dp + 3, lookback[D := (Some t, Some r, Some i)],
              [dp, dp + 1, dp + 2]))"

text \<open>
  The state of the loop over one frame. \<open>frameOffset\<close> is the local
  \<^verbatim>\<open>sampleOffset\<close> (\<open>None\<close> once it is NaN), \<open>frameOutput\<close> the sparse output array
  shared by the frames, \<open>accessed\<close> the indices of \<^verbatim>\<open>rayData\<close> read so far. The
  output keeps the ray as decoded; the division by 1023 and 63 is applied when the
  ray is painted.
\<close>

record frame_state =
  dataPointer :: nat
  rayLookback :: "ray list"
  frameOffset :: "int option"
  frameOutput :: "ray option list"
  accessed :: "nat list"

definition js_rem :: "int option \<Rightarrow> int \<Rightarrow> int option" where
  "js_rem a b =
     (case a of
        None \<Rightarrow> None
      | Some x \<Rightarrow> if b = 0 then None else Some (sgn x * (\<bar>x\<bar> mod \<bar>b\<bar>)))"

definition frame_step :: "16 word list \<Rightarrow> int \<Rightarrow> int \<Rightarrow> 8 word list \<Rightarrow> frame_state \<Rightarrow> frame_state" where
  "frame_step buf w h d st =
     (let (ray, dp', lookback', idxs) = decodeRay d (dataPointer st) (rayLookback st);
          so = js_rem (frameOffset st) (2 * w * h);
          index = (case so of
                     None \<Rightarrow> None
                   | Some off \<Rightarrow>
                       (case (i16_get buf off, i16_get buf (off + 1)) of
                          (Some x, Some y) \<Rightarrow> Some (x + y * w)
                        | _ \<Rightarrow> None));
          out' = (case index of
                    None \<Rightarrow> frameOutput st
                  | Some i \<Rightarrow> if 0 \<le> i then arr_set (frameOutput st) (nat i) ray else frameOutput st)
      in st\<lparr>dataPointer := dp', rayLookback := lookback',
            frameOffset := map_option (\<lambda>off. off + 2) so,
            frameOutput := out', accessed := accessed st @ idxs\<rparr>)"

function decodeFrame ::
  "16 word list \<Rightarrow> int \<Rightarrow> int \<Rightarrow> 8 word list \<Rightarrow> frame_state \<Rightarrow> frame_state" where
  "decodeFrame buf w h d st =
     (if dataPointer st + 1 \<ge> length d then st
      else decodeFrame buf w h d (frame_step buf w h d st))"
  by pat_completeness auto
termination
  by (relation "measure (\<lambda>(buf, w, h, d, st). length d - dataPointer st)")
     (auto simp: frame_step_def decodeRay_def Let_def split: prod.splits if_splits)

declare decodeFrame.simps [simp del]

definition frame_init :: "AppCameraRays \<Rightarrow> ray option list \<Rightarrow> frame_state" where
  "frame_init frame out =
     \<lparr> dataPointer = 0, rayLookback = replicate 64 (Some 0, Some 0, Some 0),
       frameOffset = Some (2 * sampleOffset frame), frameOutput = out, accessed = [] \<rparr>"

subsection \<open>Painting\<close>

text \<open>
  The colour of one ray, or \<open>None\<close> where \<^verbatim>\<open>colours[material]\<close> is
  \<^verbatim>\<open>undefined\<close> and indexing it raises a TypeError. A channel is \<open>None\<close> when
  it is NaN.
\<close>

definition colours :: "(rat \<times> rat \<times> rat) list" where
  "colours =
     [(1/2, 1/2, 1/2), (4/5, 7/10, 7/10), (3/10, 7/10, 1), (3/5, 3/5, 3/5),
      (7/10, 7/10, 7/10), (4/5, 3/5, 2/5), (1, 2/5, 2/5), (1, 1/10, 1/10)]"

type_synonym colour = "rat option \<times> rat option \<times> rat option"

definition target_colour :: "ray \<Rightarrow> colour option" where
  "target_colour ray =
     (case ray of (t, r, i) \<Rightarrow>
        if t = Some 1023 \<and> r = Some 0 \<and> i = Some 0
        then Some (Some 208, Some 230, Some 252)
        else (case i of
                None \<Rightarrow> None
              | Some m \<Rightarrow>
                  if 0 \<le> m \<and> m < 8 then
                    (case colours ! nat m of (c0, c1, c2) \<Rightarrow>
                       let alignment = map_option (\<lambda>r. of_int r / 63) r
                       in Some (map_option (\<lambda>a. a * c0 * 255) alignment,
                                map_option (\<lambda>a. a * c1 * 255) alignment,
                                map_option (\<lambda>a. a * c2 * 255) alignment))
                  else None))"

text \<open>The calls of \<^verbatim>\<open>setPixelColor\<close>, in order, as \<open>((x, y), colour)\<close>.\<close>

type_synonym image = "((int \<times> int) \<times> colour) list"

fun paint :: "int \<Rightarrow> int \<Rightarrow> nat \<Rightarrow> ray option list \<Rightarrow> image option" where
  "paint w h i [] = Some []"
| "paint w h i (None # rest) = paint w h (i + 1) rest"
| "paint w h i (Some ray # rest) =
     (case target_colour ray of
        None \<Rightarrow> None
      | Some c \<Rightarrow>
          map_option (\<lambda>img. ((int i mod w, h - 1 - int i div w), c) # img)
                     (paint w h (i + 1) rest))"

subsection \<open>The Camera class\<close>

datatype CameraType = UNKNOWN | CCTV_CAMERA | PTZ_CCTV_CAMERA | DRONE | AUTO_TURRET

definition getCameraType :: "int \<Rightarrow> CameraType" where
  "getCameraType flags =
     (if flags = 0 then CCTV_CAMERA
      else if flags = 10 then PTZ_CCTV_CAMERA
      else if flags = 7 then DRONE
      else if flags = 58 then AUTO_TURRET
      else UNKNOWN)"

record Camera =
  cameraIdentifier :: string
  cameraType :: CameraType
  cameraPlayerId :: string
  cameraPlayerToken :: int
  isSubscribed :: bool
  cameraRays :: "AppCameraRays list"
  cameraSubscribeInfo :: "AppCameraInfo option"

definition Camera_new :: Camera where
  "Camera_new =
     \<lparr> cameraIdentifier = [], cameraType = UNKNOWN, cameraPlayerId = [], cameraPlayerToken = 0,
       isSubscribed = False, cameraRays = [], cameraSubscribeInfo = None \<rparr>"

text \<open>
  \<^verbatim>\<open>renderCameraFrame\<close>; \<open>None\<close> when it throws: no subscribe info, a negative
  buffer length, or a material outside the palette.
\<close>

definition renderCameraFrame :: "Camera \<Rightarrow> image option" where
  "renderCameraFrame cam =
     (case cameraSubscribeInfo cam of
        None \<Rightarrow> None
      | Some info \<Rightarrow>
          (case samplePositions (width info) (height info) of
             None \<Rightarrow> None
           | Some buf \<Rightarrow>
               paint (width info) (height info) 0
                 (foldl (\<lambda>out frame.
                           frameOutput (decodeFrame buf (width info) (height info) (rayData frame)
                                     (frame_init frame out)))
                        (replicate (nat (width info * height info)) None)
                        (cameraRays cam))))"

text \<open>
  The listener on the engine's \<^verbatim>\<open>message\<close> event: the camera afterwards and the
  images emitted as \<^verbatim>\<open>render\<close>. When rendering throws nothing is emitted.
\<close>

definition camera_onMessage :: "AppMessage \<Rightarrow> Camera \<Rightarrow> Camera \<times> image list" where
  "camera_onMessage appMessage cam =
     (case (isSubscribed cam, broadcast appMessage) of
        (True, Some b) \<Rightarrow>
          (case broadcastCameraRays b of
             None \<Rightarrow> (cam, [])
           | Some rays \<Rightarrow>
               let cam1 = cam\<lparr>cameraRays := cameraRays cam @ [rays]\<rparr>
               in if length (cameraRays cam1) > 10 then
                    let cam2 = cam1\<lparr>cameraRays := tl (cameraRays cam1)\<rparr>
                    in (cam2, (case renderCameraFrame cam2 of None \<Rightarrow> [] | Some img \<Rightarrow> [img]))
                  else (cam1, []))
      | _ \<Rightarrow> (cam, []))"

fun camera_receive :: "AppMessage list \<Rightarrow> Camera \<Rightarrow> Camera \<times> image list" where
  "camera_receive [] cam = (cam, [])"
| "camera_receive (m # ms) cam =
     (let (cam1, imgs1) = camera_onMessage m cam;
          (cam2, imgs2) = camera_receive ms cam1
      in (cam2, imgs1 @ imgs2))"

text \<open>
  \<^verbatim>\<open>subscribe\<close>, from the point where the reply to \<^verbatim>\<open>cameraSubscribeAsync\<close> is in:
  \<open>None\<close> is a reply that is not a valid \<^verbatim>\<open>AppResponse\<close>. The result is
  \<open>None\<close> when reading \<^verbatim>\<open>controlFlags\<close> of a missing info throws.
\<close>

definition subscribe ::
  "string \<Rightarrow> int \<Rightarrow> string \<Rightarrow> AppResponse option \<Rightarrow> Camera \<Rightarrow> bool option \<times> Camera" where
  "subscribe pid ptoken ident reply cam =
     (case (case reply of None \<Rightarrow> None
                        | Some r \<Rightarrow> if getAppResponseError r = ResponseNoError then Some r else None) of
        Some r \<Rightarrow>
          let cam1 = cam\<lparr>cameraIdentifier := ident, cameraPlayerId := pid, cameraPlayerToken := ptoken,
                         isSubscribed := True, cameraRays := [],
                         cameraSubscribeInfo := responseCameraSubscribeInfo r\<rparr>
          in (case responseCameraSubscribeInfo r of
                None \<Rightarrow> (None, cam1)
              | Some info \<Rightarrow> (Some True, cam1\<lparr>cameraType := getCameraType (controlFlags info)\<rparr>))
      | None \<Rightarrow>
          (Some False,
           cam\<lparr>cameraIdentifier := [], cameraPlayerId := [], cameraPlayerToken := 0,
               isSubscribed := False, cameraRays := [], cameraSubscribeInfo := None,
               cameraType := UNKNOWN\<rparr>))"

definition unsubscribe :: "Camera \<Rightarrow> bool \<times> Camera" where
  "unsubscribe cam =
     (True,
      cam\<lparr>cameraIdentifier := [], cameraPlayerId := [], cameraPlayerToken := 0,
          isSubscribed := False, cameraRays := [], cameraSubscribeInfo := None,
          cameraType := UNKNOWN\<rparr>)"


text \<open>The camera rays carried by a message, if it is a broadcast with rays.\<close>

definition frame_of :: "AppMessage \<Rightarrow> AppCameraRays option" where
  "frame_of m = (case broadcast m of None \<Rightarrow> None | Some b \<Rightarrow> broadcastCameraRays b)"

text \<open>
  Collaborators for evaluating the engine on concrete inputs: a request is valid
  unless its body is empty, and is encoded as its sequence number in one byte if
  that fits; the socket takes every packet but the byte 255; a one-byte message
  decodes to a response with that byte as its sequence number.
\<close>

definition sample_extern :: "string extern" where
  "sample_extern =
     \<lparr> isValidAppRequest = (\<lambda>req. requestData req \<noteq> []),
       toBinary = (\<lambda>req. if requestSeq req < 256
                           then Inr [word_of_nat (requestSeq req)]
                           else Inl ''sequence number out of range''),
       ws_send = (\<lambda>bytes. if bytes = [255] then Some ''socket is closing'' else None),
       fromBinary = (\<lambda>bytes. case bytes of
                        [b] \<Rightarrow> Inr \<lparr>response = Some \<lparr>responseSeq = unat b, error = None,
                                                       responseCameraSubscribeInfo = None\<rparr>,
                                     broadcast = None\<rparr>
                      | _ \<Rightarrow> Inl ''malformed message''),
       isValidAppMessage = (\<lambda>m. True) \<rparr>"


text \<open>
  A callback that throws, as \<^verbatim>\<open>() => { throw new Error('boom') }\<close>; an engine with
  that callback pending under the sequence number 1 and no listener attached; and
  the same engine with a listener of the \<^verbatim>\<open>error\<close> event that returns, as the one
  of \<^verbatim>\<open>test.ts\<close> does.
\<close>

definition throwing_callback :: CallbackFunction where
  "throwing_callback = UserCallback (\<lambda>m. Some ''boom'')"

definition pending_engine :: "string RustPlus" where
  "pending_engine =
     RustPlus_new\<lparr>ws := Some OPEN, seq := 1, seqCallbacks := [None, Some throwing_callback]\<rparr>"

definition listening_engine :: "string RustPlus" where
  "listening_engine = pending_engine\<lparr>errorListeners := [\<lambda>t e. None]\<rparr>"
section \<open>Properties of the token ledger\<close>

lemmas token_constants =
  MAX_REQUESTS_PER_IP_ADDRESS_def REQUESTS_PER_IP_REPLENISH_RATE_def
  MAX_REQUESTS_PER_PLAYER_ID_def REQUESTS_PER_PLAYER_ID_REPLENISH_RATE_def
  MAX_REQUESTS_FOR_SERVER_PAIRING_def REQUESTS_FOR_SERVER_PAIRING_REPLENISH_RATE_def

lemma never_negative_initial: "never_negative initial_tokens"
  by (simp add: never_negative_def initial_tokens_def token_constants)

lemma under_ceiling_initial: "under_ceiling initial_tokens"
  by (simp add: under_ceiling_def initial_tokens_def)

lemma never_negative_replenishTask: "never_negative s \<Longrightarrow> never_negative (replenishTask s)"
  by (auto simp: never_negative_def replenishTask_def replenishConnectionTokens_def
        replenishPlayerIdTokens_def replenishServerPairingTokens_def token_constants
        split: option.splits if_splits)

lemma under_ceiling_replenishTask: "under_ceiling s \<Longrightarrow> under_ceiling (replenishTask s)"
  by (auto simp: under_ceiling_def replenishTask_def replenishConnectionTokens_def
        replenishPlayerIdTokens_def replenishServerPairingTokens_def
        split: option.splits if_splits)

lemma never_negative_wait:
  "never_negative s \<Longrightarrow> never_negative (snd (consumeTokens_wait pid n el tmo s))"
  by (auto simp: never_negative_def consumeTokens_wait_def hasEnoughTokens_def
        split: option.splits if_splits)

lemma under_ceiling_wait:
  "0 \<le> n \<Longrightarrow> under_ceiling s \<Longrightarrow> under_ceiling (snd (consumeTokens_wait pid n el tmo s))"
  by (fastforce simp: under_ceiling_def consumeTokens_wait_def hasEnoughTokens_def
        split: option.splits if_splits)

lemma never_negative_register:
  "never_negative s \<Longrightarrow>
   never_negative (s\<lparr>playerId := (playerId s)(pid \<mapsto> MAX_REQUESTS_PER_PLAYER_ID)\<rparr>)"
  by (auto simp: never_negative_def token_constants)

lemma under_ceiling_register:
  "under_ceiling s \<Longrightarrow>
   under_ceiling (s\<lparr>playerId := (playerId s)(pid \<mapsto> MAX_REQUESTS_PER_PLAYER_ID)\<rparr>)"
  by (auto simp: under_ceiling_def)

lemma never_negative_consumeTokens:
  assumes "never_negative s"
  shows "never_negative (snd (consumeTokens pid n w el tmo s))"
proof -
  let ?s = "if pid \<notin> dom (playerId s)
            then s\<lparr>playerId := (playerId s)(pid \<mapsto> MAX_REQUESTS_PER_PLAYER_ID)\<rparr> else s"
  have "never_negative ?s"
    using assms never_negative_register by simp
  then show ?thesis
    using never_negative_wait [of ?s pid n el tmo]
    by (simp add: consumeTokens_def Let_def)
qed

lemma under_ceiling_consumeTokens:
  assumes "0 \<le> n" "under_ceiling s"
  shows "under_ceiling (snd (consumeTokens pid n w el tmo s))"
proof -
  let ?s = "if pid \<notin> dom (playerId s)
            then s\<lparr>playerId := (playerId s)(pid \<mapsto> MAX_REQUESTS_PER_PLAYER_ID)\<rparr> else s"
  have "under_ceiling ?s"
    using assms under_ceiling_register by simp
  then show ?thesis
    using under_ceiling_wait [of n ?s pid el tmo] assms(1)
    by (simp add: consumeTokens_def Let_def)
qed

lemma never_negative_step: "never_negative s \<Longrightarrow> never_negative (ledger_step e s)"
  by (cases e) (simp_all add: never_negative_consumeTokens never_negative_wait never_negative_replenishTask)

lemma under_ceiling_step:
  "0 \<le> requested e \<Longrightarrow> under_ceiling s \<Longrightarrow> under_ceiling (ledger_step e s)"
  by (cases e) (simp_all add: under_ceiling_consumeTokens under_ceiling_wait under_ceiling_replenishTask)

lemma never_negative_run: "never_negative s \<Longrightarrow> never_negative (ledger_run evs s)"
  by (induction evs arbitrary: s) (simp_all add: never_negative_step)

lemma under_ceiling_run:
  "\<forall>e \<in> set evs. 0 \<le> requested e \<Longrightarrow> under_ceiling s \<Longrightarrow> under_ceiling (ledger_run evs s)"
  by (induction evs arbitrary: s) (simp_all add: under_ceiling_step)

text \<open>
  C5. Whatever the order of calls of \<^verbatim>\<open>consumeTokens\<close> (returning at once or
  sleeping and waking), and however many times the 1 Hz timer has run
  \<^verbatim>\<open>replenishTask\<close> in between, the connection balance, the pairing balance and
  the balance of every identity are never negative; and when no call asks for a
  negative amount, the connection balance never exceeds 50, the pairing balance
  never exceeds 5 and no identity's balance exceeds 25.
\<close>

theorem balances_within_limits:
  "0 \<le> connection (ledger_run evs initial_tokens) \<and>
   0 \<le> serverPairing (ledger_run evs initial_tokens) \<and>
   (\<forall>b. playerId (ledger_run evs initial_tokens) pid = Some b \<longrightarrow> 0 \<le> b) \<and>
   ((\<forall>e \<in> set evs. 0 \<le> requested e) \<longrightarrow>
      connection (ledger_run evs initial_tokens) \<le> 50 \<and>
      serverPairing (ledger_run evs initial_tokens) \<le> 5 \<and>
      (\<forall>b. playerId (ledger_run evs initial_tokens) pid = Some b \<longrightarrow> b \<le> 25))"
proof -
  have nn: "never_negative (ledger_run evs initial_tokens)"
    by (rule never_negative_run [OF never_negative_initial])
  have uc: "under_ceiling (ledger_run evs initial_tokens)" if "\<forall>e \<in> set evs. 0 \<le> requested e"
    using that by (rule under_ceiling_run [OF _ under_ceiling_initial])
  from nn uc show ?thesis
    unfolding never_negative_def under_ceiling_def token_constants by blast
qed

theorem balances_within_limits_witness:
  "0 \<le> requested (Call ''a'' 5 False 0 10000) \<and> 0 \<le> requested Tick \<and>
   0 \<le> requested (Call ''b'' (1/100) True 0 10000) \<and>
   playerId (ledger_run [Call ''a'' 5 False 0 10000, Tick, Call ''b'' (1/100) True 0 10000]
               initial_tokens) ''a'' = Some 23 \<and>
   (0::rat) \<le> 23 \<and> (23::rat) \<le> 25 \<and>
   0 \<le> connection (ledger_run [Call ''a'' 5 False 0 10000, Tick, Call ''b'' (1/100) True 0 10000]
               initial_tokens) \<and>
   connection (ledger_run [Call ''a'' 5 False 0 10000, Tick, Call ''b'' (1/100) True 0 10000]
               initial_tokens) \<le> 50"
  using balances_within_limits
          [of "[Call ''a'' 5 False 0 10000, Tick, Call ''b'' (1/100) True 0 10000]" "''a''"]
  by (simp add: consumeTokens_def consumeTokens_wait_def hasEnoughTokens_def initial_tokens_def
      replenishTask_def replenishConnectionTokens_def
      replenishPlayerIdTokens_def replenishServerPairingTokens_def Let_def token_constants)

text \<open>
  C1. Twenty-five requests of cost 1 by one identity leave the connection balance
  at 25 and the identity at 0. The next call with \<^verbatim>\<open>waitForReplenish = false\<close>
  has a sufficient connection balance and an insufficient identity balance, and it
  returns \<^verbatim>\<open>NotEnoughConnectionTokens\<close>. After a second identity has spent the
  other 25 connection tokens both balances are insufficient, and the call returns
  \<^verbatim>\<open>Unknown\<close>. In neither case is \<^verbatim>\<open>NotEnoughPlayerIdTokens\<close> reported.
\<close>

theorem consumeTokens_identity_shortfall:
  "ledger_run (replicate 25 (Call ''76561198000000001'' 1 False 0 10000)) initial_tokens =
     \<lparr>connection = 25, playerId = [''76561198000000001'' \<mapsto> 0], serverPairing = 5\<rparr> \<and>
   fst (consumeTokens ''76561198000000001'' 1 False 0 10000
          \<lparr>connection = 25, playerId = [''76561198000000001'' \<mapsto> 0], serverPairing = 5\<rparr>)
     = Returned NotEnoughConnectionTokens \<and>
   ledger_run (replicate 25 (Call ''76561198000000002'' 1 False 0 10000))
       \<lparr>connection = 25, playerId = [''76561198000000001'' \<mapsto> 0], serverPairing = 5\<rparr> =
     \<lparr>connection = 0,
      playerId = [''76561198000000001'' \<mapsto> 0, ''76561198000000002'' \<mapsto> 0],
      serverPairing = 5\<rparr> \<and>
   fst (consumeTokens ''76561198000000001'' 1 False 0 10000
          \<lparr>connection = 0,
           playerId = [''76561198000000001'' \<mapsto> 0, ''76561198000000002'' \<mapsto> 0],
           serverPairing = 5\<rparr>)
     = Returned Unknown"
  by (simp add: numeral_eq_Suc consumeTokens_def consumeTokens_wait_def hasEnoughTokens_def
      initial_tokens_def Let_def token_constants)



section \<open>Properties of the ray decoder and the frame window\<close>

text \<open>
  C9. Decoding the bytes \<open>0xFF, 0b01000000, 0b00111111, 5\<close> against the initial
  lookback table yields horizontal 256, vertical 63 and material 5, consumes four
  bytes, and stores the triple in slot
  \<open>(3 * (256 div 128) + 5 * (63 div 16) + 7 * 5) mod 64 = 56\<close>; a frame made of
  these four bytes ends with the triple in slot 56 of its lookback table.
\<close>

theorem marker_scenario:
  "decodeRay [255, 64, 63, 5] 0 (replicate 64 (Some 0, Some 0, Some 0)) =
     ((Some 256, Some 63, Some 5), 4,
      (replicate 64 (Some 0, Some 0, Some 0))[56 := (Some 256, Some 63, Some 5)],
      [0, 1, 2, 3]) \<and>
   slot 256 63 (Some 5) = 56 \<and>
   (3 * (256 div 128) + 5 * (63 div 16) + 7 * 5) mod 64 = (56::int) \<and>
   rayLookback (decodeFrame buf w h [255, 64, 63, 5]
                  (frame_init \<lparr>sampleOffset = k, rayData = [255, 64, 63, 5]\<rparr> out)) =
     (replicate 64 (Some 0, Some 0, Some 0))[56 := (Some 256, Some 63, Some 5)]"
proof -
  let ?lb = "replicate 64 (Some (0::int), Some (0::int), Some (0::int))"
  have ray: "decodeRay [255, 64, 63, 5] 0 ?lb =
     ((Some 256, Some 63, Some 5), 4, ?lb[56 := (Some 256, Some 63, Some 5)], [0, 1, 2, 3])"
    by (simp add: decodeRay_def rayData_at_def bits_def slot_def Let_def)
  have sl: "slot 256 63 (Some 5) = 56"
    by (simp add: slot_def)
  have frame: "rayLookback (decodeFrame buf w h [255, 64, 63, 5]
                  (frame_init \<lparr>sampleOffset = k, rayData = [255, 64, 63, 5]\<rparr> out)) =
     ?lb[56 := (Some 256, Some 63, Some 5)]"
    apply (subst decodeFrame.simps)
    apply (simp add: frame_init_def frame_step_def ray Let_def)
    apply (subst decodeFrame.simps)
    apply simp
    done
  show ?thesis using ray sl frame by simp
qed

text \<open>
  C3. On the two-byte buffer \<open>0xFF, 0x40\<close> the loop test lets the marker branch
  run; it reads the indices 0 to 3, and the reads at 2 and 3 lie beyond the end of
  the buffer. On \<open>0xC0, 0x01\<close> the baseline branch reads the indices 0 to 2, the
  last of them beyond the end. The truncated marker leaves a ray without a material
  in the output, and rendering a window that holds such a frame throws.
\<close>

theorem truncated_marker_reads_past_end:
  "accessed (decodeFrame buf w h [255, 64]
               (frame_init \<lparr>sampleOffset = k, rayData = [255, 64]\<rparr> out)) = [0, 1, 2, 3] \<and>
   length [255, 64 :: 8 word] = 2 \<and>
   rayData_at [255, 64] 2 = None \<and> rayData_at [255, 64] 3 = None \<and>
   accessed (decodeFrame buf w h [192, 1]
               (frame_init \<lparr>sampleOffset = k, rayData = [192, 1]\<rparr> out)) = [0, 1, 2] \<and>
   rayData_at [192, 1] 2 = None \<and>
   frameOutput (decodeFrame [0, 0] 1 1 [255, 64]
               (frame_init \<lparr>sampleOffset = 0, rayData = [255, 64]\<rparr> [None]))
     = [Some (Some 256, Some 0, None)] \<and>
   renderCameraFrame
     \<lparr>cameraIdentifier = ''CAM1'', cameraType = CCTV_CAMERA,
      cameraPlayerId = ''76561198000000001'', cameraPlayerToken = 1, isSubscribed = True,
      cameraRays = [\<lparr>sampleOffset = 0, rayData = [255, 64]\<rparr>],
      cameraSubscribeInfo = Some \<lparr>width = 1, height = 1, controlFlags = 0\<rparr>\<rparr> = None"
proof -
  have a: "decodeFrame buf w h [255, 64]
               (frame_init \<lparr>sampleOffset = k, rayData = [255, 64]\<rparr> out)
           = frame_step buf w h [255, 64] (frame_init \<lparr>sampleOffset = k, rayData = [255, 64]\<rparr> out)"
    for buf w h k out
    apply (subst decodeFrame.simps)
    apply (simp add: frame_init_def)
    apply (subst decodeFrame.simps)
    apply (simp add: frame_step_def decodeRay_def rayData_at_def bits_def Let_def)
    done
  have b: "accessed (decodeFrame buf w h [192, 1]
               (frame_init \<lparr>sampleOffset = k, rayData = [192, 1]\<rparr> out)) = [0, 1, 2]"
    apply (subst decodeFrame.simps)
    apply (simp add: frame_init_def frame_step_def decodeRay_def rayData_at_def bits_def Let_def)
    apply (subst decodeFrame.simps)
    apply simp
    done
  have acc: "accessed (frame_step buf w h [255, 64]
               (frame_init \<lparr>sampleOffset = k, rayData = [255, 64]\<rparr> out)) = [0, 1, 2, 3]"
    by (simp add: frame_init_def frame_step_def decodeRay_def rayData_at_def bits_def Let_def)
  have out: "frameOutput (frame_step [0, 0] 1 1 [255, 64]
               (frame_init \<lparr>sampleOffset = 0, rayData = [255, 64]\<rparr> [None]))
     = [Some (Some 256, Some 0, None)]"
    by (simp add: frame_init_def frame_step_def decodeRay_def rayData_at_def bits_def slot_def
          js_rem_def i16_get_def arr_set_def Let_def)
  have tbl: "samplePositions 1 1 = Some [0, 0]"
    by (simp add: samplePositions_def populate_def)
  have render: "renderCameraFrame
     \<lparr>cameraIdentifier = ''CAM1'', cameraType = CCTV_CAMERA,
      cameraPlayerId = ''76561198000000001'', cameraPlayerToken = 1, isSubscribed = True,
      cameraRays = [\<lparr>sampleOffset = 0, rayData = [255, 64]\<rparr>],
      cameraSubscribeInfo = Some \<lparr>width = 1, height = 1, controlFlags = 0\<rparr>\<rparr> = None"
    by (simp add: renderCameraFrame_def tbl a out target_colour_def)
  show ?thesis
    using a acc b out render by (simp add: rayData_at_def)
qed

lemma camera_onMessage_frame:
  assumes "isSubscribed cam" "frame_of m = Some f"
  shows "camera_onMessage m cam =
     (if length (cameraRays cam) \<ge> 10
      then (cam\<lparr>cameraRays := tl (cameraRays cam @ [f])\<rparr>,
            case renderCameraFrame (cam\<lparr>cameraRays := tl (cameraRays cam @ [f])\<rparr>) of
              None \<Rightarrow> [] | Some img \<Rightarrow> [img])
      else (cam\<lparr>cameraRays := cameraRays cam @ [f]\<rparr>, []))"
  using assms
  by (auto simp: camera_onMessage_def frame_of_def Let_def split: option.splits)

lemma camera_receive_filling:
  assumes "isSubscribed cam" "\<forall>m \<in> set ms. frame_of m \<noteq> None"
    "length (cameraRays cam) + length ms \<le> 10"
  shows "camera_receive ms cam =
           (cam\<lparr>cameraRays := cameraRays cam @ map (\<lambda>m. the (frame_of m)) ms\<rparr>, [])"
  using assms
proof (induction ms arbitrary: cam)
  case Nil
  then show ?case by simp
next
  case (Cons m ms)
  from Cons.prems obtain f where f: "frame_of m = Some f" by auto
  let ?c = "cam\<lparr>cameraRays := cameraRays cam @ [f]\<rparr>"
  have step: "camera_onMessage m cam = (?c, [])"
    using camera_onMessage_frame [OF Cons.prems(1) f] Cons.prems(3) by simp
  have "camera_receive ms ?c =
          (?c\<lparr>cameraRays := cameraRays ?c @ map (\<lambda>m. the (frame_of m)) ms\<rparr>, [])"
    using Cons.prems by (intro Cons.IH) auto
  then show ?case using step f by simp
qed

text \<open>
  C2 (amended). After a successful subscribe the first ten camera-ray broadcasts
  fill the window and emit no image. The eleventh drops the oldest frame, so that
  the window holds ten frames again, and renders once: the image is emitted when
  rendering completes, and nothing is emitted when it throws.
\<close>

theorem first_render_on_eleventh_frame:
  assumes "subscribe pid ptoken ident reply c0 = (Some True, cam)"
    and "\<forall>m \<in> set ms. frame_of m \<noteq> None" and "length ms = 10"
    and "frame_of m11 = Some f"
  shows "camera_receive ms cam = (cam\<lparr>cameraRays := map (\<lambda>m. the (frame_of m)) ms\<rparr>, []) \<and>
         camera_onMessage m11 (fst (camera_receive ms cam)) =
           (cam\<lparr>cameraRays := map (\<lambda>m. the (frame_of m)) (tl ms) @ [f]\<rparr>,
            case renderCameraFrame (cam\<lparr>cameraRays := map (\<lambda>m. the (frame_of m)) (tl ms) @ [f]\<rparr>) of
              None \<Rightarrow> [] | Some img \<Rightarrow> [img]) \<and>
         length (cameraRays (fst (camera_onMessage m11 (fst (camera_receive ms cam))))) = 10"
proof -
  from assms(1) have sub: "isSubscribed cam" and empty: "cameraRays cam = []"
    by (auto simp: subscribe_def Let_def split: option.splits if_splits)
  have fill: "camera_receive ms cam = (cam\<lparr>cameraRays := map (\<lambda>m. the (frame_of m)) ms\<rparr>, [])"
    using camera_receive_filling [OF sub assms(2)] empty assms(3) by simp
  let ?c = "cam\<lparr>cameraRays := map (\<lambda>m. the (frame_of m)) ms\<rparr>"
  have "ms \<noteq> []" using assms(3) by auto
  then have tl: "tl (map (\<lambda>m. the (frame_of m)) ms @ [f]) = map (\<lambda>m. the (frame_of m)) (tl ms) @ [f]"
    by (cases ms) auto
  have "camera_onMessage m11 ?c =
           (cam\<lparr>cameraRays := map (\<lambda>m. the (frame_of m)) (tl ms) @ [f]\<rparr>,
            case renderCameraFrame (cam\<lparr>cameraRays := map (\<lambda>m. the (frame_of m)) (tl ms) @ [f]\<rparr>) of
              None \<Rightarrow> [] | Some img \<Rightarrow> [img])"
    using camera_onMessage_frame [of ?c m11 f] sub assms(3,4) tl by simp
  then show ?thesis using fill assms(3) by simp
qed


lemma decodeFrame_stop: "dataPointer st + 1 \<ge> length d \<Longrightarrow> decodeFrame buf w h d st = st"
  by (subst decodeFrame.simps) simp

lemma samplePositions_1_1: "samplePositions 1 1 = Some [0, 0]"
  by (simp add: samplePositions_def populate_def)

theorem first_render_on_eleventh_frame_witness:
  "subscribe ''76561198000000001'' 1 ''CAM1''
      (Some \<lparr>responseSeq = 1, error = None,
             responseCameraSubscribeInfo = Some \<lparr>width = 1, height = 1, controlFlags = 0\<rparr>\<rparr>)
      Camera_new
    = (Some True,
       \<lparr>cameraIdentifier = ''CAM1'', cameraType = CCTV_CAMERA,
        cameraPlayerId = ''76561198000000001'', cameraPlayerToken = 1, isSubscribed = True,
        cameraRays = [],
        cameraSubscribeInfo = Some \<lparr>width = 1, height = 1, controlFlags = 0\<rparr>\<rparr>) \<and>
   frame_of \<lparr>response = None,
             broadcast = Some \<lparr>broadcastCameraRays = Some \<lparr>sampleOffset = 0, rayData = []\<rparr>\<rparr>\<rparr>
     = Some \<lparr>sampleOffset = 0, rayData = []\<rparr> \<and>
   length (replicate 10 \<lparr>response = None,
             broadcast = Some \<lparr>broadcastCameraRays = Some \<lparr>sampleOffset = 0, rayData = []\<rparr>\<rparr>\<rparr>) = 10 \<and>
   snd (camera_onMessage
          \<lparr>response = None,
           broadcast = Some \<lparr>broadcastCameraRays = Some \<lparr>sampleOffset = 0, rayData = []\<rparr>\<rparr>\<rparr>
          (fst (camera_receive
                  (replicate 10 \<lparr>response = None,
                     broadcast = Some \<lparr>broadcastCameraRays = Some \<lparr>sampleOffset = 0, rayData = []\<rparr>\<rparr>\<rparr>)
                  \<lparr>cameraIdentifier = ''CAM1'', cameraType = CCTV_CAMERA,
                   cameraPlayerId = ''76561198000000001'', cameraPlayerToken = 1,
                   isSubscribed = True, cameraRays = [],
                   cameraSubscribeInfo = Some \<lparr>width = 1, height = 1, controlFlags = 0\<rparr>\<rparr>)))
     = [[]]"
proof -
  let ?m = "\<lparr>response = None,
             broadcast = Some \<lparr>broadcastCameraRays = Some \<lparr>sampleOffset = 0, rayData = []\<rparr>\<rparr>\<rparr>"
  let ?f = "\<lparr>sampleOffset = 0, rayData = []\<rparr>"
  let ?cam = "\<lparr>cameraIdentifier = ''CAM1'', cameraType = CCTV_CAMERA,
        cameraPlayerId = ''76561198000000001'', cameraPlayerToken = 1, isSubscribed = True,
        cameraRays = [],
        cameraSubscribeInfo = Some \<lparr>width = 1, height = 1, controlFlags = 0\<rparr>\<rparr>"
  have sub: "subscribe ''76561198000000001'' 1 ''CAM1''
      (Some \<lparr>responseSeq = 1, error = None,
             responseCameraSubscribeInfo = Some \<lparr>width = 1, height = 1, controlFlags = 0\<rparr>\<rparr>)
      Camera_new = (Some True, ?cam)"
    by (simp add: subscribe_def getAppResponseError_def getCameraType_def Camera_new_def)
  have fr: "frame_of ?m = Some ?f"
    by (simp add: frame_of_def)
  have all: "\<forall>m \<in> set (replicate 10 ?m). frame_of m \<noteq> None"
    using fr by simp
  have render: "renderCameraFrame (?cam\<lparr>cameraRays := map (\<lambda>m. the (frame_of m)) (tl (replicate 10 ?m)) @ [?f]\<rparr>)
        = Some []"
    by (simp add: renderCameraFrame_def samplePositions_1_1 fr numeral_eq_Suc decodeFrame_stop frame_init_def)
  have len: "length (replicate 10 ?m) = 10"
    by simp
  note inst = first_render_on_eleventh_frame [OF sub all len fr]
  have "snd (camera_onMessage ?m (fst (camera_receive (replicate 10 ?m) ?cam))) = [[]]"
    by (simp only: inst [THEN conjunct2, THEN conjunct1] snd_conv render option.case)
  then show ?thesis
    using sub fr len by simp
qed

text \<open>
  C2 as stated fails: after a successful subscribe, ten camera-ray broadcasts have
  emitted no rendered image.
\<close>

theorem no_render_after_ten_frames:
  "snd (camera_receive
          (replicate 10 \<lparr>response = None,
             broadcast = Some \<lparr>broadcastCameraRays = Some \<lparr>sampleOffset = 0, rayData = []\<rparr>\<rparr>\<rparr>)
          (snd (subscribe ''76561198000000001'' 1 ''CAM1''
             (Some \<lparr>responseSeq = 1, error = None,
                    responseCameraSubscribeInfo = Some \<lparr>width = 1, height = 1, controlFlags = 0\<rparr>\<rparr>)
             Camera_new))) = [] \<and>
   length (snd (camera_receive
          (replicate 10 \<lparr>response = None,
             broadcast = Some \<lparr>broadcastCameraRays = Some \<lparr>sampleOffset = 0, rayData = []\<rparr>\<rparr>\<rparr>)
          (snd (subscribe ''76561198000000001'' 1 ''CAM1''
             (Some \<lparr>responseSeq = 1, error = None,
                    responseCameraSubscribeInfo = Some \<lparr>width = 1, height = 1, controlFlags = 0\<rparr>\<rparr>)
             Camera_new)))) \<noteq> 1"
  by (simp add: numeral_eq_Suc camera_onMessage_def subscribe_def getAppResponseError_def
        getCameraType_def Camera_new_def Let_def)


section \<open>Properties of the request correlation engine\<close>

lemma arr_get_set: "arr_get (arr_set xs i v) j = (if j = i then Some v else arr_get xs j)"
  by (auto simp: arr_get_def arr_set_def nth_append nth_Cons' )

lemma arr_get_delete: "arr_get (arr_delete xs i) j = (if j = i then None else arr_get xs j)"
  by (auto simp: arr_get_def arr_delete_def)

lemma set_pending: "set (pending xs) = {i. arr_get xs i \<noteq> None}"
  by (auto simp: pending_def arr_get_def)

lemma distinct_pending: "distinct (pending xs)"
  by (simp add: pending_def)

lemma length_pending: "length (pending xs) = card {i. arr_get xs i \<noteq> None}"
  using distinct_card [OF distinct_pending, of xs] by (simp add: set_pending)

lemma finite_entries: "finite {i. arr_get xs i \<noteq> None}"
  using finite_set [of "pending xs"] by (simp only: set_pending)

lemma length_pending_set:
  assumes "arr_get xs i = None"
  shows "length (pending (arr_set xs i v)) = Suc (length (pending xs))"
proof -
  let ?A = "{j. arr_get xs j \<noteq> None}"
  have eq: "{j. arr_get (arr_set xs i v) j \<noteq> None} = insert i ?A"
    by (auto simp: arr_get_set)
  have "i \<notin> ?A"
    using assms by simp
  then have "card (insert i ?A) = Suc (card ?A)"
    using finite_entries [of xs] by (rule card_insert_disjoint [rotated])
  then show ?thesis
    by (simp only: length_pending eq)
qed

lemma getNextSeq_from_free: "arr_get cbs (getNextSeq_from cbs n) = None"
proof (induction cbs n rule: getNextSeq_from.induct)
  case (1 cbs nextSeq)
  then show ?case
    by (subst getNextSeq_from.simps) auto
qed

lemma getNextSeq_from_ge: "n \<le> getNextSeq_from cbs n"
proof (induction cbs n rule: getNextSeq_from.induct)
  case (1 cbs nextSeq)
  show ?case
  proof (cases "arr_get cbs nextSeq \<noteq> None")
    case True
    with 1 have "nextSeq + 1 \<le> getNextSeq_from cbs (nextSeq + 1)" by simp
    with True show ?thesis by (subst getNextSeq_from.simps) simp
  next
    case False
    then show ?thesis by (subst getNextSeq_from.simps) simp
  qed
qed

lemma getNextSeq_from_skipped:
  "n \<le> k \<Longrightarrow> k < getNextSeq_from cbs n \<Longrightarrow> arr_get cbs k \<noteq> None"
proof (induction cbs n rule: getNextSeq_from.induct)
  case (1 cbs nextSeq)
  show ?case
  proof (cases "arr_get cbs nextSeq \<noteq> None")
    case True
    then have eq: "getNextSeq_from cbs nextSeq = getNextSeq_from cbs (nextSeq + 1)"
      by (subst getNextSeq_from.simps) simp
    show ?thesis
    proof (cases "k = nextSeq")
      case True
      with \<open>arr_get cbs nextSeq \<noteq> None\<close> show ?thesis by simp
    next
      case False
      with "1.prems" eq have "nextSeq + 1 \<le> k" "k < getNextSeq_from cbs (nextSeq + 1)" by simp_all
      with 1 True show ?thesis by blast
    qed
  next
    case False
    then have "getNextSeq_from cbs nextSeq = nextSeq"
      by (subst getNextSeq_from.simps) simp
    with "1.prems" show ?thesis by simp
  qed
qed

lemma sendRequest_accepted:
  assumes "sendRequest X data pid ptoken callback None s = (Returns None, s')"
  shows "seqCallbacks s' = arr_set (seqCallbacks s) (fst (getNextSeq s)) callback"
  using assms
  by (auto simp: sendRequest_def getNextSeq_def emit_def Let_def
           split: if_splits sum.splits option.splits prod.splits)

lemma sendRequest_accepted_pending:
  assumes "sendRequest X data pid ptoken callback None s = (Returns None, s')"
  shows "length (pending (seqCallbacks s')) = Suc (length (pending (seqCallbacks s)))"
  using sendRequest_accepted [OF assms] getNextSeq_from_free [of "seqCallbacks s" "seq s + 1"]
  by (simp add: length_pending_set getNextSeq_def Let_def)

lemma sendRequests_pending:
  "fst (sendRequests X reqs s) = replicate (length reqs) (Returns None) \<Longrightarrow>
   length (pending (seqCallbacks (snd (sendRequests X reqs s)))) =
     length (pending (seqCallbacks s)) + length reqs"
proof (induction reqs arbitrary: s)
  case Nil
  then show ?case by simp
next
  case (Cons q reqs)
  obtain data pid ptoken callback where q: "q = (data, pid, ptoken, callback)"
    by (cases q) auto
  obtain r s1 where one: "sendRequest X data pid ptoken callback None s = (r, s1)"
    by (cases "sendRequest X data pid ptoken callback None s") auto
  obtain rs s2 where rest: "sendRequests X reqs s1 = (rs, s2)"
    by (cases "sendRequests X reqs s1") auto
  from Cons.prems q one rest have r: "r = Returns None"
    and rs: "rs = replicate (length reqs) (Returns None)"
    by simp_all
  have "length (pending (seqCallbacks s1)) = Suc (length (pending (seqCallbacks s)))"
    using sendRequest_accepted_pending [of X data pid ptoken callback s s1] one r by simp
  moreover have "length (pending (seqCallbacks s2)) = length (pending (seqCallbacks s1)) + length reqs"
    using Cons.IH [of s1] rest rs by simp
  ultimately show ?case
    using q one rest by simp
qed

text \<open>
  C6. \<^verbatim>\<open>getNextSeq\<close> returns a sequence number above the last used one that has
  no callback registered, every number it passed over on the way has one, and the
  number becomes the last used one. When a series of requests sent with fresh
  sequence numbers is accepted one and all, the table holds one more entry per
  request, each under its own sequence number.
\<close>

theorem getNextSeq_unused:
  "arr_get (seqCallbacks s) (fst (getNextSeq s)) = None \<and>
   seq s < fst (getNextSeq s) \<and>
   (\<forall>k. seq s < k \<and> k < fst (getNextSeq s) \<longrightarrow> arr_get (seqCallbacks s) k \<noteq> None) \<and>
   seq (snd (getNextSeq s)) = fst (getNextSeq s) \<and>
   (fst (sendRequests X reqs s) = replicate (length reqs) (Returns None) \<longrightarrow>
      distinct (pending (seqCallbacks (snd (sendRequests X reqs s)))) \<and>
      length (pending (seqCallbacks (snd (sendRequests X reqs s)))) =
        length (pending (seqCallbacks s)) + length reqs)"
proof -
  have "seq s + 1 \<le> getNextSeq_from (seqCallbacks s) (seq s + 1)"
    by (rule getNextSeq_from_ge)
  moreover have "arr_get (seqCallbacks s) k \<noteq> None"
    if "seq s < k" "k < getNextSeq_from (seqCallbacks s) (seq s + 1)" for k
    using getNextSeq_from_skipped [of "seq s + 1" k "seqCallbacks s"] that by simp
  ultimately show ?thesis
    using getNextSeq_from_free [of "seqCallbacks s" "seq s + 1"] sendRequests_pending [of X reqs s]
    by (simp add: getNextSeq_def Let_def distinct_pending)
qed


theorem getNextSeq_unused_witness:
  "fst (sendRequests sample_extern
          [(''getInfo'', ''76561198000000001'', 1, UserCallback (\<lambda>m. None)),
           (''getTime'', ''76561198000000001'', 1, UserCallback (\<lambda>m. None)),
           (''getMap'', ''76561198000000002'', 2, UserCallback (\<lambda>m. None))]
          (RustPlus_new\<lparr>ws := Some OPEN\<rparr>)) = replicate 3 (Returns None) \<and>
   length (pending (seqCallbacks (RustPlus_new\<lparr>ws := Some OPEN\<rparr> :: string RustPlus))) = 0 \<and>
   length (pending (seqCallbacks (snd (sendRequests sample_extern
          [(''getInfo'', ''76561198000000001'', 1, UserCallback (\<lambda>m. None)),
           (''getTime'', ''76561198000000001'', 1, UserCallback (\<lambda>m. None)),
           (''getMap'', ''76561198000000002'', 2, UserCallback (\<lambda>m. None))]
          (RustPlus_new\<lparr>ws := Some OPEN\<rparr>))))) = 3 \<and>
   seq (RustPlus_new\<lparr>ws := Some OPEN\<rparr> :: string RustPlus) < 1 \<and>
   fst (getNextSeq (RustPlus_new\<lparr>ws := Some OPEN\<rparr> :: string RustPlus)) = 1"
proof -
  let ?s = "RustPlus_new\<lparr>ws := Some OPEN\<rparr> :: string RustPlus"
  let ?reqs = "[(''getInfo'', ''76561198000000001'', 1, UserCallback (\<lambda>m. None)),
           (''getTime'', ''76561198000000001'', 1, UserCallback (\<lambda>m. None)),
           (''getMap'', ''76561198000000002'', 2, UserCallback (\<lambda>m. None))]"
  have sent: "fst (sendRequests sample_extern ?reqs ?s) = replicate (length ?reqs) (Returns None)"
    by (simp add: sendRequest_def getNextSeq_def getNextSeq_from.simps arr_get_def arr_set_def
          emit_def sample_extern_def RustPlus_new_def Let_def)
  have zero: "length (pending (seqCallbacks ?s)) = 0"
    by (simp add: RustPlus_new_def pending_def)
  have one: "fst (getNextSeq ?s) = 1"
    by (simp add: getNextSeq_def getNextSeq_from.simps arr_get_def RustPlus_new_def)
  show ?thesis
    using getNextSeq_unused [of ?s sample_extern ?reqs] sent zero one
    by (simp add: numeral_eq_Suc)
qed

subsection \<open>Failures of sendRequest\<close>

lemma sendRequest_closed:
  "ws s \<noteq> Some OPEN \<Longrightarrow>
   sendRequest X data pid ptoken callback seqArg s =
     (Returns (Some ''ERROR sendRequest: WebSocket is not open.''), s)"
  by (simp add: sendRequest_def)

lemma dropped_entries:
  "arr_get (arr_delete (arr_set cbs k callback) k) j = (if j = k then None else arr_get cbs j)"
  by (simp add: arr_get_delete arr_get_set)

lemma sendRequest_dropped:
  assumes "ws s = Some OPEN"
    and "\<not> isValidAppRequest X (assembled data pid ptoken seqArg s) \<and> msg = ''ERROR sendRequest: AppRequest data is invalid.''
         \<or> isValidAppRequest X (assembled data pid ptoken seqArg s) \<and>
           toBinary X (assembled data pid ptoken seqArg s) = Inl e \<and>
           msg = ''ERROR sendRequest AppRequest.toBinary: '' @ e
         \<or> isValidAppRequest X (assembled data pid ptoken seqArg s) \<and>
           toBinary X (assembled data pid ptoken seqArg s) = Inr bytes \<and> ws_send X bytes = Some e \<and>
           msg = ''ERROR sendRequest ws.send: '' @ e"
  shows "fst (sendRequest X data pid ptoken callback seqArg s) = Returns (Some msg) \<and>
         arr_get (seqCallbacks (snd (sendRequest X data pid ptoken callback seqArg s)))
           (chosenSeq seqArg s) = None \<and>
         (\<forall>j. j \<noteq> chosenSeq seqArg s \<longrightarrow>
            arr_get (seqCallbacks (snd (sendRequest X data pid ptoken callback seqArg s))) j =
            arr_get (seqCallbacks s) j)"
  using assms
  by (cases seqArg)
     (auto simp: sendRequest_def chosenSeq_def assembled_def Let_def dropped_entries getNextSeq_def)

lemma sendRequest_error_cases:
  assumes "sendRequest X data pid ptoken callback seqArg s = (Returns (Some err), s')"
  shows "ws s \<noteq> Some OPEN \<or>
         \<not> isValidAppRequest X (assembled data pid ptoken seqArg s) \<or>
         (\<exists>e. toBinary X (assembled data pid ptoken seqArg s) = Inl e) \<or>
         (\<exists>bytes e. toBinary X (assembled data pid ptoken seqArg s) = Inr bytes \<and>
                    ws_send X bytes = Some e)"
proof (cases "ws s = Some OPEN")
  case True
  show ?thesis
    using assms True
    by (cases seqArg)
       (auto simp: sendRequest_def chosenSeq_def assembled_def Let_def getNextSeq_def
             split: if_splits sum.splits option.splits prod.splits)
next
  case False
  then show ?thesis by simp
qed

text \<open>
  C7. With the socket not open \<^verbatim>\<open>sendRequest\<close> returns the Error "WebSocket is not
  open" and leaves the engine as it was: no sequence number is chosen and no callback
  stored. With the socket open, if the assembled request fails validation, or its
  encoding throws, or the send of the socket throws, \<^verbatim>\<open>sendRequest\<close> returns the
  Error of that step and the entry of the chosen sequence number is empty
  afterwards. Conversely, whenever \<^verbatim>\<open>sendRequest\<close> returns an Error, one of these
  four failures has happened, the entry of the chosen sequence number is empty if
  the socket was open, and the table holds no entry that it did not hold before.
\<close>

theorem sendRequest_error_leaves_no_entry:
  "(ws s \<noteq> Some OPEN \<longrightarrow>
      sendRequest X data pid ptoken callback seqArg s =
        (Returns (Some ''ERROR sendRequest: WebSocket is not open.''), s)) \<and>
   (ws s = Some OPEN \<and> \<not> isValidAppRequest X (assembled data pid ptoken seqArg s) \<longrightarrow>
      fst (sendRequest X data pid ptoken callback seqArg s) =
        Returns (Some ''ERROR sendRequest: AppRequest data is invalid.'') \<and>
      arr_get (seqCallbacks (snd (sendRequest X data pid ptoken callback seqArg s)))
        (chosenSeq seqArg s) = None) \<and>
   (ws s = Some OPEN \<and> isValidAppRequest X (assembled data pid ptoken seqArg s) \<and>
    toBinary X (assembled data pid ptoken seqArg s) = Inl e \<longrightarrow>
      fst (sendRequest X data pid ptoken callback seqArg s) =
        Returns (Some (''ERROR sendRequest AppRequest.toBinary: '' @ e)) \<and>
      arr_get (seqCallbacks (snd (sendRequest X data pid ptoken callback seqArg s)))
        (chosenSeq seqArg s) = None) \<and>
   (ws s = Some OPEN \<and> isValidAppRequest X (assembled data pid ptoken seqArg s) \<and>
    toBinary X (assembled data pid ptoken seqArg s) = Inr bytes \<and> ws_send X bytes = Some e \<longrightarrow>
      fst (sendRequest X data pid ptoken callback seqArg s) =
        Returns (Some (''ERROR sendRequest ws.send: '' @ e)) \<and>
      arr_get (seqCallbacks (snd (sendRequest X data pid ptoken callback seqArg s)))
        (chosenSeq seqArg s) = None) \<and>
   (sendRequest X data pid ptoken callback seqArg s = (Returns (Some err), s') \<longrightarrow>
      (ws s \<noteq> Some OPEN \<or>
       \<not> isValidAppRequest X (assembled data pid ptoken seqArg s) \<or>
       (\<exists>e. toBinary X (assembled data pid ptoken seqArg s) = Inl e) \<or>
       (\<exists>bytes e. toBinary X (assembled data pid ptoken seqArg s) = Inr bytes \<and>
                  ws_send X bytes = Some e)) \<and>
      (ws s = Some OPEN \<longrightarrow> arr_get (seqCallbacks s') (chosenSeq seqArg s) = None) \<and>
      (\<forall>j. arr_get (seqCallbacks s') j \<noteq> None \<longrightarrow> arr_get (seqCallbacks s) j \<noteq> None))"
proof -
  have closed: "ws s \<noteq> Some OPEN \<Longrightarrow>
      sendRequest X data pid ptoken callback seqArg s =
        (Returns (Some ''ERROR sendRequest: WebSocket is not open.''), s)"
    by (rule sendRequest_closed)
  note dropped = sendRequest_dropped [of s X data pid ptoken seqArg _ e bytes callback]
  have invalid: "fst (sendRequest X data pid ptoken callback seqArg s) =
        Returns (Some ''ERROR sendRequest: AppRequest data is invalid.'') \<and>
      arr_get (seqCallbacks (snd (sendRequest X data pid ptoken callback seqArg s)))
        (chosenSeq seqArg s) = None"
    if "ws s = Some OPEN" "\<not> isValidAppRequest X (assembled data pid ptoken seqArg s)"
    using dropped [of "''ERROR sendRequest: AppRequest data is invalid.''"] that by simp
  have encode: "fst (sendRequest X data pid ptoken callback seqArg s) =
        Returns (Some (''ERROR sendRequest AppRequest.toBinary: '' @ e)) \<and>
      arr_get (seqCallbacks (snd (sendRequest X data pid ptoken callback seqArg s)))
        (chosenSeq seqArg s) = None"
    if "ws s = Some OPEN" "isValidAppRequest X (assembled data pid ptoken seqArg s)"
      "toBinary X (assembled data pid ptoken seqArg s) = Inl e"
    using dropped [of "''ERROR sendRequest AppRequest.toBinary: '' @ e"] that by simp
  have send: "fst (sendRequest X data pid ptoken callback seqArg s) =
        Returns (Some (''ERROR sendRequest ws.send: '' @ e)) \<and>
      arr_get (seqCallbacks (snd (sendRequest X data pid ptoken callback seqArg s)))
        (chosenSeq seqArg s) = None"
    if "ws s = Some OPEN" "isValidAppRequest X (assembled data pid ptoken seqArg s)"
      "toBinary X (assembled data pid ptoken seqArg s) = Inr bytes" "ws_send X bytes = Some e"
    using dropped [of "''ERROR sendRequest ws.send: '' @ e"] that by simp
  have conv: "(ws s \<noteq> Some OPEN \<or>
       \<not> isValidAppRequest X (assembled data pid ptoken seqArg s) \<or>
       (\<exists>e. toBinary X (assembled data pid ptoken seqArg s) = Inl e) \<or>
       (\<exists>bytes e. toBinary X (assembled data pid ptoken seqArg s) = Inr bytes \<and>
                  ws_send X bytes = Some e)) \<and>
      (ws s = Some OPEN \<longrightarrow> arr_get (seqCallbacks s') (chosenSeq seqArg s) = None) \<and>
      (\<forall>j. arr_get (seqCallbacks s') j \<noteq> None \<longrightarrow> arr_get (seqCallbacks s) j \<noteq> None)"
    if ret: "sendRequest X data pid ptoken callback seqArg s = (Returns (Some err), s')"
  proof (cases "ws s = Some OPEN")
    case True
    have tbl: "seqCallbacks s' =
          arr_delete (arr_set (seqCallbacks s) (chosenSeq seqArg s) callback) (chosenSeq seqArg s)"
      using ret True
      by (cases seqArg)
         (auto simp: sendRequest_def chosenSeq_def Let_def getNextSeq_def
               split: if_splits sum.splits option.splits prod.splits)
    show ?thesis
      using sendRequest_error_cases [OF ret] True
      by (auto simp: tbl dropped_entries split: if_splits)
  next
    case False
    then have "s' = s"
      using ret closed by simp
    with False show ?thesis by simp
  qed
  from closed invalid encode send conv show ?thesis
    by blast
qed


theorem sendRequest_error_leaves_no_entry_witness:
  "ws (RustPlus_new :: string RustPlus) = None \<and>
   sendRequest sample_extern ''info'' ''76561198000000001'' 1 (UserCallback (\<lambda>m. None)) None
     RustPlus_new
     = (Returns (Some ''ERROR sendRequest: WebSocket is not open.''), RustPlus_new) \<and>
   ws (RustPlus_new\<lparr>ws := Some OPEN\<rparr> :: string RustPlus) = Some OPEN \<and>
   chosenSeq None (RustPlus_new\<lparr>ws := Some OPEN\<rparr> :: string RustPlus) = 1 \<and>
   isValidAppRequest sample_extern
     (assembled [] ''76561198000000001'' 1 None (RustPlus_new\<lparr>ws := Some OPEN\<rparr>)) = False \<and>
   sendRequest sample_extern [] ''76561198000000001'' 1 (UserCallback (\<lambda>m. None)) None
     (RustPlus_new\<lparr>ws := Some OPEN\<rparr>)
     = (Returns (Some ''ERROR sendRequest: AppRequest data is invalid.''),
        RustPlus_new\<lparr>ws := Some OPEN, seq := 1, seqCallbacks := [None, None]\<rparr>) \<and>
   arr_get (seqCallbacks (snd (sendRequest sample_extern [] ''76561198000000001'' 1
     (UserCallback (\<lambda>m. None)) None (RustPlus_new\<lparr>ws := Some OPEN\<rparr>)))) 1 = None \<and>
   toBinary sample_extern
     (assembled ''info'' ''76561198000000001'' 1 (Some 256) (RustPlus_new\<lparr>ws := Some OPEN\<rparr>))
     = Inl ''sequence number out of range'' \<and>
   fst (sendRequest sample_extern ''info'' ''76561198000000001'' 1 (UserCallback (\<lambda>m. None))
     (Some 256) (RustPlus_new\<lparr>ws := Some OPEN\<rparr>))
     = Returns (Some ''ERROR sendRequest AppRequest.toBinary: sequence number out of range'') \<and>
   arr_get (seqCallbacks (snd (sendRequest sample_extern ''info'' ''76561198000000001'' 1
     (UserCallback (\<lambda>m. None)) (Some 256) (RustPlus_new\<lparr>ws := Some OPEN\<rparr>)))) 256 = None \<and>
   toBinary sample_extern
     (assembled ''info'' ''76561198000000001'' 1 (Some 255) (RustPlus_new\<lparr>ws := Some OPEN\<rparr>))
     = Inr [255] \<and>
   ws_send sample_extern [255] = Some ''socket is closing'' \<and>
   fst (sendRequest sample_extern ''info'' ''76561198000000001'' 1 (UserCallback (\<lambda>m. None))
     (Some 255) (RustPlus_new\<lparr>ws := Some OPEN\<rparr>))
     = Returns (Some ''ERROR sendRequest ws.send: socket is closing'') \<and>
   arr_get (seqCallbacks (snd (sendRequest sample_extern ''info'' ''76561198000000001'' 1
     (UserCallback (\<lambda>m. None)) (Some 255) (RustPlus_new\<lparr>ws := Some OPEN\<rparr>)))) 255 = None"
proof -
  let ?s = "RustPlus_new\<lparr>ws := Some OPEN\<rparr> :: string RustPlus"
  let ?cb = "UserCallback (\<lambda>m. None)"
  let ?id = "''76561198000000001''"
  have closed: "ws (RustPlus_new :: string RustPlus) = None"
    by (simp add: RustPlus_new_def)
  have opened: "ws ?s = Some OPEN"
    by simp
  have ch: "chosenSeq None ?s = 1" "chosenSeq (Some 256) ?s = 256" "chosenSeq (Some 255) ?s = 255"
    by (simp_all add: chosenSeq_def getNextSeq_def getNextSeq_from.simps arr_get_def RustPlus_new_def)
  have invalid: "isValidAppRequest sample_extern (assembled [] ?id 1 None ?s) = False"
    by (simp add: sample_extern_def assembled_def)
  have valid: "isValidAppRequest sample_extern (assembled ''info'' ?id 1 (Some 256) ?s)"
    "isValidAppRequest sample_extern (assembled ''info'' ?id 1 (Some 255) ?s)"
    by (simp_all add: sample_extern_def assembled_def)
  have enc: "toBinary sample_extern (assembled ''info'' ?id 1 (Some 256) ?s)
       = Inl ''sequence number out of range''"
    "toBinary sample_extern (assembled ''info'' ?id 1 (Some 255) ?s) = Inr [255]"
    by (simp_all add: sample_extern_def assembled_def ch)
  have snd: "ws_send sample_extern [255] = Some ''socket is closing''"
    by (simp add: sample_extern_def)
  have run: "sendRequest sample_extern [] ?id 1 ?cb None ?s
     = (Returns (Some ''ERROR sendRequest: AppRequest data is invalid.''),
        RustPlus_new\<lparr>ws := Some OPEN, seq := 1, seqCallbacks := [None, None]\<rparr>)"
    by (simp add: sendRequest_def getNextSeq_def getNextSeq_from.simps arr_get_def arr_set_def
          arr_delete_def sample_extern_def RustPlus_new_def Let_def)
  show ?thesis
    using sendRequest_error_leaves_no_entry
            [of RustPlus_new sample_extern "''info''" ?id 1 ?cb None "[]" "[]" "[]" RustPlus_new]
          sendRequest_error_leaves_no_entry
            [of ?s sample_extern "[]" ?id 1 ?cb None "[]" "[]"
              "''ERROR sendRequest: AppRequest data is invalid.''"
              "RustPlus_new\<lparr>ws := Some OPEN, seq := 1, seqCallbacks := [None, None]\<rparr>"]
          sendRequest_error_leaves_no_entry
            [of ?s sample_extern "''info''" ?id 1 ?cb "Some 256" "''sequence number out of range''"]
          sendRequest_error_leaves_no_entry
            [of ?s sample_extern "''info''" ?id 1 ?cb "Some 255" "''socket is closing''" "[255]"]
          closed opened ch invalid valid enc snd run
    by simp
qed

subsection \<open>Dispatch of responses\<close>

lemma invoke_thrown: "fst (invoke X cb m s1) = fst (invoke X cb m s)"
  by (cases cb) simp_all

lemma invoke_keeps:
  "seqCallbacks (snd (invoke X cb m s)) = seqCallbacks s \<and>
   invoked (snd (invoke X cb m s)) = invoked s \<and>
   emitted (snd (invoke X cb m s)) = emitted s \<and>
   errorListeners (snd (invoke X cb m s)) = errorListeners s \<and>
   messageListeners (snd (invoke X cb m s)) = messageListeners s"
  by (cases cb) simp_all

lemma onMessage_matched:
  assumes "fromBinary X bytes = Inr m" "response m = Some r"
    "arr_get (seqCallbacks s) (responseSeq r) = Some cb"
  shows "invoked (snd (onMessage X (Some bytes) s)) = invoked s @ [(responseSeq r, m)]"
    and "seqCallbacks (snd (onMessage X (Some bytes) s)) = arr_delete (seqCallbacks s) (responseSeq r)"
    and "timers (snd (onMessage X (Some bytes) s)) = timers (snd (invoke X cb m s))"
proof -
  let ?s1 = "s\<lparr>invoked := invoked s @ [(responseSeq r, m)]\<rparr>"
  obtain thrown s2 where inv: "invoke X cb m ?s1 = (thrown, s2)"
    by (cases "invoke X cb m ?s1") auto
  have keep: "seqCallbacks s2 = seqCallbacks s" "invoked s2 = invoked s @ [(responseSeq r, m)]"
    using inv invoke_keeps [of X cb m ?s1] by simp_all
  have tm: "timers s2 = timers (snd (invoke X cb m s))"
    using inv by (cases cb) auto
  show "invoked (snd (onMessage X (Some bytes) s)) = invoked s @ [(responseSeq r, m)]"
    using assms inv keep
    by (simp add: onMessage_def onMessage_try_def emit_def Let_def split: option.splits)
  show "seqCallbacks (snd (onMessage X (Some bytes) s)) = arr_delete (seqCallbacks s) (responseSeq r)"
    using assms inv keep
    by (simp add: onMessage_def onMessage_try_def emit_def Let_def split: option.splits)
  show "timers (snd (onMessage X (Some bytes) s)) = timers (snd (invoke X cb m s))"
    using assms inv tm
    by (simp add: onMessage_def onMessage_try_def emit_def Let_def split: option.splits)
qed

lemma onMessage_unmatched:
  assumes "fromBinary X bytes = Inr m" "response m = Some r"
    "arr_get (seqCallbacks s) (responseSeq r) = None"
  shows "invoked (snd (onMessage X (Some bytes) s)) = invoked s"
  using assms
  by (simp add: onMessage_def onMessage_try_def emit_def Let_def split: option.splits)

lemma onMessage_returned:
  assumes "fromBinary X bytes = Inr m" "response m = Some r"
    "arr_get (seqCallbacks s) (responseSeq r) = Some cb"
    "fst (invoke X cb m s) = None"
    "fst (emit (EmitMessage m True) s) = None"
  shows "fst (onMessage X (Some bytes) s) = None"
    and "emitted (snd (onMessage X (Some bytes) s)) = emitted s @ [EmitMessage m True]"
proof -
  let ?s1 = "s\<lparr>invoked := invoked s @ [(responseSeq r, m)]\<rparr>"
  obtain thrown s2 where inv: "invoke X cb m ?s1 = (thrown, s2)"
    by (cases "invoke X cb m ?s1") auto
  have th: "thrown = None"
    using inv invoke_thrown [of X cb m ?s1 s] assms(4) by simp
  have keep: "emitted s2 = emitted s" "errorListeners s2 = errorListeners s"
    "messageListeners s2 = messageListeners s"
    using inv invoke_keeps [of X cb m ?s1] by simp_all
  show "fst (onMessage X (Some bytes) s) = None"
    using assms inv keep th
    by (simp add: onMessage_def onMessage_try_def emit_def Let_def split: option.splits)
  show "emitted (snd (onMessage X (Some bytes) s)) = emitted s @ [EmitMessage m True]"
    using assms inv keep th
    by (simp add: onMessage_def onMessage_try_def emit_def Let_def split: option.splits)
qed

lemma onMessage_caught:
  assumes "fromBinary X bytes = Inr m" "response m = Some r"
    "arr_get (seqCallbacks s) (responseSeq r) = Some cb"
    "fst (invoke X cb m s) = Some msg"
    "fst (emit (EmitError Callback (''ERROR on.message: '' @ msg)) s) = None"
    "fst (emit (EmitMessage m False) s) = None"
  shows "fst (onMessage X (Some bytes) s) = None"
    and "emitted (snd (onMessage X (Some bytes) s)) =
           emitted s @ [EmitError Callback (''ERROR on.message: '' @ msg), EmitMessage m False]"
proof -
  let ?s1 = "s\<lparr>invoked := invoked s @ [(responseSeq r, m)]\<rparr>"
  obtain thrown s2 where inv: "invoke X cb m ?s1 = (thrown, s2)"
    by (cases "invoke X cb m ?s1") auto
  have th: "thrown = Some msg"
    using inv invoke_thrown [of X cb m ?s1 s] assms(4) by simp
  have keep: "emitted s2 = emitted s" "errorListeners s2 = errorListeners s"
    "messageListeners s2 = messageListeners s"
    using inv invoke_keeps [of X cb m ?s1] by simp_all
  show "fst (onMessage X (Some bytes) s) = None"
    using assms inv keep th
    by (simp add: onMessage_def onMessage_try_def emit_def Let_def split: option.splits if_splits)
  show "emitted (snd (onMessage X (Some bytes) s)) =
           emitted s @ [EmitError Callback (''ERROR on.message: '' @ msg), EmitMessage m False]"
    using assms inv keep th
    by (simp add: onMessage_def onMessage_try_def emit_def Let_def split: option.splits if_splits)
qed

lemma onMessage_unhandled:
  assumes "fromBinary X bytes = Inr m" "response m = Some r"
    "arr_get (seqCallbacks s) (responseSeq r) = Some cb"
    "fst (invoke X cb m s) = Some msg"
    "errorListeners s = []"
  shows "fst (onMessage X (Some bytes) s) = Some (unhandled_error Callback)"
    and "emitted (snd (onMessage X (Some bytes) s)) =
           emitted s @ [EmitError Callback (''ERROR on.message: '' @ msg),
                        EmitError Callback (''ERROR on.message: '' @ unhandled_error Callback)]"
proof -
  let ?s1 = "s\<lparr>invoked := invoked s @ [(responseSeq r, m)]\<rparr>"
  obtain thrown s2 where inv: "invoke X cb m ?s1 = (thrown, s2)"
    by (cases "invoke X cb m ?s1") auto
  have th: "thrown = Some msg"
    using inv invoke_thrown [of X cb m ?s1 s] assms(4) by simp
  have keep: "emitted s2 = emitted s" "errorListeners s2 = errorListeners s"
    "messageListeners s2 = messageListeners s"
    using inv invoke_keeps [of X cb m ?s1] by simp_all
  show "fst (onMessage X (Some bytes) s) = Some (unhandled_error Callback)"
    using assms inv keep th
    by (simp add: onMessage_def onMessage_try_def emit_def Let_def split: option.splits if_splits)
  show "emitted (snd (onMessage X (Some bytes) s)) =
           emitted s @ [EmitError Callback (''ERROR on.message: '' @ msg),
                        EmitError Callback (''ERROR on.message: '' @ unhandled_error Callback)]"
    using assms inv keep th
    by (simp add: onMessage_def onMessage_try_def emit_def Let_def split: option.splits if_splits)
qed

text \<open>
  C4. A decoded message with a response: if its sequence number has a callback
  registered, the callback is called once with the message and the entry is gone
  afterwards, also when the callback throws, and a second delivery of the response
  calls nothing. If the callback returns and no listener of the message event
  throws, the message is emitted as handled and nothing leaves the handler. If the
  callback throws and the emits of the error and of the message throw nothing,
  which for the error needs a listener attached, an error of type Callback is
  emitted before the message event and nothing leaves the handler. If the callback
  throws and no listener of the error event is attached, the emit of the error
  throws, the message event is skipped, the emit in the outer catch throws as well
  and that exception leaves the handler. The timer of an async request is disarmed
  by the response, so that firing it later changes nothing. With no callback
  registered nothing is called, and so it is after the timeout of the request has
  fired and removed the entry.
\<close>

theorem response_dispatched_once:
  assumes "fromBinary X bytes = Inr m" and "response m = Some r"
  shows "(arr_get (seqCallbacks s) (responseSeq r) = Some cb \<longrightarrow>
            invoked (snd (onMessage X (Some bytes) s)) = invoked s @ [(responseSeq r, m)] \<and>
            arr_get (seqCallbacks (snd (onMessage X (Some bytes) s))) (responseSeq r) = None \<and>
            invoked (snd (onMessage X (Some bytes) (snd (onMessage X (Some bytes) s)))) =
              invoked s @ [(responseSeq r, m)]) \<and>
         (arr_get (seqCallbacks s) (responseSeq r) = Some cb \<and>
          fst (invoke X cb m s) = None \<and> fst (emit (EmitMessage m True) s) = None \<longrightarrow>
            fst (onMessage X (Some bytes) s) = None \<and>
            emitted (snd (onMessage X (Some bytes) s)) = emitted s @ [EmitMessage m True]) \<and>
         (arr_get (seqCallbacks s) (responseSeq r) = Some cb \<and>
          fst (invoke X cb m s) = Some msg \<and>
          fst (emit (EmitError Callback (''ERROR on.message: '' @ msg)) s) = None \<and>
          fst (emit (EmitMessage m False) s) = None \<longrightarrow>
            fst (onMessage X (Some bytes) s) = None \<and>
            emitted (snd (onMessage X (Some bytes) s)) =
              emitted s @ [EmitError Callback (''ERROR on.message: '' @ msg), EmitMessage m False]) \<and>
         (arr_get (seqCallbacks s) (responseSeq r) = Some cb \<and>
          fst (invoke X cb m s) = Some msg \<and> errorListeners s = [] \<longrightarrow>
            fst (onMessage X (Some bytes) s) = Some (unhandled_error Callback) \<and>
            emitted (snd (onMessage X (Some bytes) s)) =
              emitted s @ [EmitError Callback (''ERROR on.message: '' @ msg),
                           EmitError Callback (''ERROR on.message: '' @ unhandled_error Callback)]) \<and>
         (arr_get (seqCallbacks s) (responseSeq r) = Some (AsyncResolver (responseSeq r)) \<longrightarrow>
            timeoutFired (responseSeq r) (snd (onMessage X (Some bytes) s)) =
              snd (onMessage X (Some bytes) s)) \<and>
         (arr_get (seqCallbacks s) (responseSeq r) = None \<longrightarrow>
            invoked (snd (onMessage X (Some bytes) s)) = invoked s) \<and>
         (responseSeq r \<in> set (timers s) \<longrightarrow>
            arr_get (seqCallbacks (timeoutFired (responseSeq r) s)) (responseSeq r) = None \<and>
            invoked (snd (onMessage X (Some bytes) (timeoutFired (responseSeq r) s))) = invoked s)"
proof -
  have matched: "invoked (snd (onMessage X (Some bytes) s)) = invoked s @ [(responseSeq r, m)] \<and>
            arr_get (seqCallbacks (snd (onMessage X (Some bytes) s))) (responseSeq r) = None \<and>
            invoked (snd (onMessage X (Some bytes) (snd (onMessage X (Some bytes) s)))) =
              invoked s @ [(responseSeq r, m)]"
    if cb: "arr_get (seqCallbacks s) (responseSeq r) = Some cb"
  proof -
    note first = onMessage_matched [OF assms cb]
    have gone: "arr_get (seqCallbacks (snd (onMessage X (Some bytes) s))) (responseSeq r) = None"
      by (simp add: first(2) arr_get_delete)
    have "invoked (snd (onMessage X (Some bytes) (snd (onMessage X (Some bytes) s)))) =
            invoked (snd (onMessage X (Some bytes) s))"
      by (rule onMessage_unmatched [OF assms gone])
    with first gone show ?thesis by simp
  qed
  have returned: "fst (onMessage X (Some bytes) s) = None \<and>
            emitted (snd (onMessage X (Some bytes) s)) = emitted s @ [EmitMessage m True]"
    if "arr_get (seqCallbacks s) (responseSeq r) = Some cb"
      "fst (invoke X cb m s) = None" "fst (emit (EmitMessage m True) s) = None"
    using onMessage_returned [OF assms that] by simp
  have caught: "fst (onMessage X (Some bytes) s) = None \<and>
            emitted (snd (onMessage X (Some bytes) s)) =
              emitted s @ [EmitError Callback (''ERROR on.message: '' @ msg), EmitMessage m False]"
    if "arr_get (seqCallbacks s) (responseSeq r) = Some cb"
      "fst (invoke X cb m s) = Some msg"
      "fst (emit (EmitError Callback (''ERROR on.message: '' @ msg)) s) = None"
      "fst (emit (EmitMessage m False) s) = None"
    using onMessage_caught [OF assms that] by simp
  have unhandled: "fst (onMessage X (Some bytes) s) = Some (unhandled_error Callback) \<and>
            emitted (snd (onMessage X (Some bytes) s)) =
              emitted s @ [EmitError Callback (''ERROR on.message: '' @ msg),
                           EmitError Callback (''ERROR on.message: '' @ unhandled_error Callback)]"
    if "arr_get (seqCallbacks s) (responseSeq r) = Some cb"
      "fst (invoke X cb m s) = Some msg" "errorListeners s = []"
    using onMessage_unhandled [OF assms that] by simp
  have early: "timeoutFired (responseSeq r) (snd (onMessage X (Some bytes) s)) =
            snd (onMessage X (Some bytes) s)"
    if "arr_get (seqCallbacks s) (responseSeq r) = Some (AsyncResolver (responseSeq r))"
  proof -
    have "responseSeq r \<notin> set (timers (snd (onMessage X (Some bytes) s)))"
      by (simp add: onMessage_matched(3) [OF assms that])
    then show ?thesis by (simp add: timeoutFired_def)
  qed
  have unmatched: "invoked (snd (onMessage X (Some bytes) s)) = invoked s"
    if "arr_get (seqCallbacks s) (responseSeq r) = None"
    by (rule onMessage_unmatched [OF assms that])
  have late: "arr_get (seqCallbacks (timeoutFired (responseSeq r) s)) (responseSeq r) = None \<and>
            invoked (snd (onMessage X (Some bytes) (timeoutFired (responseSeq r) s))) = invoked s"
    if armed: "responseSeq r \<in> set (timers s)"
  proof -
    let ?t = "timeoutFired (responseSeq r) s"
    have gone: "arr_get (seqCallbacks ?t) (responseSeq r) = None"
      using armed by (simp add: timeoutFired_def arr_get_delete)
    have same: "invoked ?t = invoked s"
      using armed by (simp add: timeoutFired_def)
    show ?thesis
      using onMessage_unmatched [OF assms gone] gone same by simp
  qed
  from matched returned caught unhandled early unmatched late show ?thesis by blast
qed

theorem response_dispatched_once_witness:
  "fromBinary sample_extern [1] =
     Inr \<lparr>response = Some \<lparr>responseSeq = 1, error = None, responseCameraSubscribeInfo = None\<rparr>,
          broadcast = None\<rparr> \<and>
   arr_get (seqCallbacks listening_engine) 1 = Some throwing_callback \<and>
   fst (invoke sample_extern throwing_callback
          \<lparr>response = Some \<lparr>responseSeq = 1, error = None, responseCameraSubscribeInfo = None\<rparr>,
           broadcast = None\<rparr> listening_engine) = Some ''boom'' \<and>
   fst (emit (EmitError Callback ''ERROR on.message: boom'') listening_engine) = None \<and>
   fst (emit (EmitMessage
          \<lparr>response = Some \<lparr>responseSeq = 1, error = None, responseCameraSubscribeInfo = None\<rparr>,
           broadcast = None\<rparr> False) listening_engine) = None \<and>
   invoked (snd (onMessage sample_extern (Some [1]) listening_engine))
     = [(1, \<lparr>response = Some \<lparr>responseSeq = 1, error = None, responseCameraSubscribeInfo = None\<rparr>,
              broadcast = None\<rparr>)] \<and>
   arr_get (seqCallbacks (snd (onMessage sample_extern (Some [1]) listening_engine))) 1 = None \<and>
   invoked (snd (onMessage sample_extern (Some [1])
                   (snd (onMessage sample_extern (Some [1]) listening_engine))))
     = [(1, \<lparr>response = Some \<lparr>responseSeq = 1, error = None, responseCameraSubscribeInfo = None\<rparr>,
              broadcast = None\<rparr>)] \<and>
   fst (onMessage sample_extern (Some [1]) listening_engine) = None \<and>
   emitted (snd (onMessage sample_extern (Some [1]) listening_engine))
     = [EmitError Callback ''ERROR on.message: boom'',
        EmitMessage \<lparr>response = Some \<lparr>responseSeq = 1, error = None,
                                       responseCameraSubscribeInfo = None\<rparr>,
                     broadcast = None\<rparr> False] \<and>
   arr_get (seqCallbacks (listening_engine\<lparr>seqCallbacks := [None, Some (AsyncResolver 1)],
                                            timers := [1]\<rparr>)) 1 = Some (AsyncResolver 1) \<and>
   timeoutFired 1 (snd (onMessage sample_extern (Some [1])
       (listening_engine\<lparr>seqCallbacks := [None, Some (AsyncResolver 1)], timers := [1]\<rparr>)))
     = snd (onMessage sample_extern (Some [1])
       (listening_engine\<lparr>seqCallbacks := [None, Some (AsyncResolver 1)], timers := [1]\<rparr>)) \<and>
   1 \<in> set (timers (listening_engine\<lparr>seqCallbacks := [None, Some (AsyncResolver 1)],
                                       timers := [1]\<rparr>)) \<and>
   arr_get (seqCallbacks (timeoutFired 1
       (listening_engine\<lparr>seqCallbacks := [None, Some (AsyncResolver 1)], timers := [1]\<rparr>))) 1
     = None \<and>
   invoked (snd (onMessage sample_extern (Some [1]) (timeoutFired 1
       (listening_engine\<lparr>seqCallbacks := [None, Some (AsyncResolver 1)], timers := [1]\<rparr>)))) = [] \<and>
   fst (invoke sample_extern (AsyncResolver 1)
          \<lparr>response = Some \<lparr>responseSeq = 1, error = None, responseCameraSubscribeInfo = None\<rparr>,
           broadcast = None\<rparr>
          (listening_engine\<lparr>seqCallbacks := [None, Some (AsyncResolver 1)], timers := [1]\<rparr>))
     = None \<and>
   fst (onMessage sample_extern (Some [1])
       (listening_engine\<lparr>seqCallbacks := [None, Some (AsyncResolver 1)], timers := [1]\<rparr>))
     = None \<and>
   emitted (snd (onMessage sample_extern (Some [1])
       (listening_engine\<lparr>seqCallbacks := [None, Some (AsyncResolver 1)], timers := [1]\<rparr>)))
     = [EmitMessage \<lparr>response = Some \<lparr>responseSeq = 1, error = None,
                                       responseCameraSubscribeInfo = None\<rparr>,
                     broadcast = None\<rparr> True] \<and>
   errorListeners pending_engine = [] \<and>
   arr_get (seqCallbacks pending_engine) 1 = Some throwing_callback \<and>
   fst (onMessage sample_extern (Some [1]) pending_engine) = Some (unhandled_error Callback) \<and>
   arr_get (seqCallbacks (snd (onMessage sample_extern (Some [1]) pending_engine))) 1 = None \<and>
   arr_get (seqCallbacks (RustPlus_new :: string RustPlus)) 1 = None \<and>
   invoked (snd (onMessage sample_extern (Some [1]) RustPlus_new)) = []"
proof -
  let ?r = "\<lparr>responseSeq = 1, error = None, responseCameraSubscribeInfo = None\<rparr>"
  let ?m = "\<lparr>response = Some ?r, broadcast = None\<rparr>"
  let ?a = "listening_engine\<lparr>seqCallbacks := [None, Some (AsyncResolver 1)], timers := [1]\<rparr>"
  have dec: "fromBinary sample_extern [1] = Inr ?m"
    by (simp add: sample_extern_def)
  have resp: "response ?m = Some ?r"
    by simp
  have reg: "arr_get (seqCallbacks listening_engine) (responseSeq ?r) = Some throwing_callback"
    by (simp add: arr_get_def listening_engine_def pending_engine_def)
  have thr: "fst (invoke sample_extern throwing_callback ?m listening_engine) = Some ''boom''"
    by (simp add: throwing_callback_def)
  have quiet: "fst (emit (EmitError Callback (''ERROR on.message: '' @ ''boom'')) listening_engine) = None"
    "fst (emit (EmitMessage ?m False) listening_engine) = None"
    by (simp_all add: emit_def listening_engine_def pending_engine_def RustPlus_new_def)
  have empty: "invoked listening_engine = []" "emitted listening_engine = []"
    by (simp_all add: listening_engine_def pending_engine_def RustPlus_new_def)
  have areg: "arr_get (seqCallbacks ?a) (responseSeq ?r) = Some (AsyncResolver (responseSeq ?r))"
    by (simp add: arr_get_def)
  have armed: "responseSeq ?r \<in> set (timers ?a)"
    by simp
  have aempty: "invoked ?a = []" "emitted ?a = []"
    by (simp_all add: listening_engine_def pending_engine_def RustPlus_new_def)
  have aret: "fst (invoke sample_extern (AsyncResolver 1) ?m ?a) = None"
    "fst (emit (EmitMessage ?m True) ?a) = None"
    by (simp_all add: emit_def listening_engine_def pending_engine_def RustPlus_new_def)
  have preg: "arr_get (seqCallbacks pending_engine) (responseSeq ?r) = Some throwing_callback"
    "errorListeners pending_engine = []"
    by (simp_all add: arr_get_def pending_engine_def RustPlus_new_def)
  have pthr: "fst (invoke sample_extern throwing_callback ?m pending_engine) = Some ''boom''"
    by (simp add: throwing_callback_def)
  have nreg: "arr_get (seqCallbacks (RustPlus_new :: string RustPlus)) (responseSeq ?r) = None"
    "invoked (RustPlus_new :: string RustPlus) = []"
    by (simp_all add: arr_get_def RustPlus_new_def)
  show ?thesis
    using response_dispatched_once [OF dec resp, of listening_engine throwing_callback "''boom''"]
          response_dispatched_once [OF dec resp, of ?a "AsyncResolver 1" "''boom''"]
          response_dispatched_once [OF dec resp, of pending_engine throwing_callback "''boom''"]
          response_dispatched_once [OF dec resp, of RustPlus_new throwing_callback "''boom''"]
          dec reg thr quiet empty areg armed aempty aret preg pthr nreg
    by simp
qed

text \<open>
  With no listener of the error event attached, the exception of the callback is
  not kept inside the handler: the emit in the inner catch throws, the message
  event is not emitted, the emit in the outer catch throws in turn and its
  exception leaves the handler of the socket's message event.
\<close>

theorem unhandled_error_leaves_handler:
  "errorListeners pending_engine = [] \<and>
   arr_get (seqCallbacks pending_engine) 1 = Some throwing_callback \<and>
   fst (onMessage sample_extern (Some [1]) pending_engine) = Some ''Unhandled error. (1)'' \<and>
   emitted (snd (onMessage sample_extern (Some [1]) pending_engine))
     = [EmitError Callback ''ERROR on.message: boom'',
        EmitError Callback ''ERROR on.message: Unhandled error. (1)''] \<and>
   arr_get (seqCallbacks (snd (onMessage sample_extern (Some [1]) pending_engine))) 1 = None"
  by (simp add: onMessage_def onMessage_try_def emit_def unhandled_error_def sample_extern_def
        pending_engine_def throwing_callback_def RustPlus_new_def arr_get_def arr_delete_def Let_def)
section \<open>Properties of the index generator and the sample positions\<close>

subsection \<open>Rounding\<close>

lemma bitlength_upper: "n < 2 ^ bitlength n"
proof (induction n rule: bitlength.induct)
  case (1 n)
  show ?case
  proof (cases "n \<le> 0")
    case True
    then show ?thesis by (subst bitlength.simps) simp
  next
    case False
    with 1 have "n div 2 < 2 ^ bitlength (n div 2)" by simp
    then have "n < 2 * 2 ^ bitlength (n div 2)" by linarith
    with False show ?thesis by (subst bitlength.simps) simp
  qed
qed

lemma bitlength_lower: "1 \<le> n \<Longrightarrow> 2 ^ (bitlength n - 1) \<le> n"
proof (induction n rule: bitlength.induct)
  case (1 n)
  then have pos: "\<not> n \<le> 0" by simp
  have unfold: "bitlength n = Suc (bitlength (n div 2))"
    using pos by (subst bitlength.simps) simp
  show ?case
  proof (cases "n = 1")
    case True
    then have "bitlength (n div 2) = 0" by (subst bitlength.simps) simp
    with True unfold show ?thesis by simp
  next
    case False
    with "1.prems" have half: "1 \<le> n div 2" by simp
    then have "2 ^ (bitlength (n div 2) - 1) \<le> n div 2"
      using 1 pos by simp
    moreover have "bitlength (n div 2) \<noteq> 0"
      using half by (subst bitlength.simps) simp
    then have "(2::int) ^ bitlength (n div 2) = 2 * 2 ^ (bitlength (n div 2) - 1)"
      by (cases "bitlength (n div 2)") simp_all
    ultimately have "2 ^ bitlength (n div 2) \<le> n" by linarith
    then show ?thesis by (simp add: unfold)
  qed
qed

lemma pow2_pos: "0 < pow2 k"
  by (simp add: pow2_def)

lemma pow2_diff: "pow2 (k - 52) = pow2 k / 2 ^ 52"
proof -
  have "pow2 (a - int n) = pow2 a / 2 ^ n" for a n
  proof (induction n)
    case 0
    then show ?case by simp
  next
    case (Suc n)
    have step: "pow2 (b - 1) = pow2 b / 2" for b
    proof (cases "1 \<le> b")
      case True
      then have "nat b = Suc (nat (b - 1))" by simp
      then show ?thesis using True by (simp add: pow2_def)
    next
      case False
      then have "nat (- (b - 1)) = Suc (nat (- b))" by simp
      then show ?thesis using False by (simp add: pow2_def)
    qed
    have "pow2 (a - int (Suc n)) = pow2 ((a - int n) - 1)"
      by (simp add: algebra_simps)
    then show ?case
      using step [of "a - int n"] Suc by simp
  qed
  from this [of k 52] show ?thesis by simp
qed

lemma binade_le:
  assumes "0 < x"
  shows "pow2 (binade x) \<le> x"
proof (cases "1 \<le> x")
  case True
  then have one: "1 \<le> \<lfloor>x\<rfloor>" by simp
  have "bitlength \<lfloor>x\<rfloor> \<noteq> 0"
    using one by (subst bitlength.simps) simp
  then have nn: "0 \<le> int (bitlength \<lfloor>x\<rfloor>) - 1" "nat (int (bitlength \<lfloor>x\<rfloor>) - 1) = bitlength \<lfloor>x\<rfloor> - 1"
    by simp_all
  have "(2::int) ^ (bitlength \<lfloor>x\<rfloor> - 1) \<le> \<lfloor>x\<rfloor>"
    using one by (rule bitlength_lower)
  then have "of_int ((2::int) ^ (bitlength \<lfloor>x\<rfloor> - 1)) \<le> (of_int \<lfloor>x\<rfloor> :: rat)"
    by (simp only: of_int_le_iff)
  also have "\<dots> \<le> x" by simp
  finally show ?thesis
    using True nn by (simp add: binade_def pow2_def)
next
  case False
  let ?n = "\<lceil>1 / x\<rceil> - 1"
  have "?n < 2 ^ bitlength ?n" by (rule bitlength_upper)
  then have "\<lceil>1 / x\<rceil> \<le> 2 ^ bitlength ?n" by simp
  then have "1 / x \<le> of_int (2 ^ bitlength ?n)"
    by (simp only: ceiling_le_iff)
  then have "1 / x \<le> 2 ^ bitlength ?n" by simp
  then have "1 \<le> 2 ^ bitlength ?n * x"
    using assms by (simp add: pos_divide_le_eq)
  then have "1 / 2 ^ bitlength ?n \<le> x"
    by (simp add: pos_divide_le_eq mult.commute)
  moreover have "pow2 (- int (bitlength ?n)) = 1 / 2 ^ bitlength ?n"
    by (cases "bitlength ?n = 0") (simp_all add: pow2_def)
  ultimately show ?thesis
    using False by (simp add: binade_def)
qed

lemma round_even_upper: "of_int (round_even m) \<le> m + 1 / 2"
proof -
  define f where "f = \<lfloor>m\<rfloor>"
  define d where "d = m - of_int f"
  have f: "of_int f \<le> m"
    by (simp add: f_def)
  have r: "round_even m = (if d < 1 / 2 then f else if 1 / 2 < d then f + 1
                           else if even f then f else f + 1)"
    by (simp add: round_even_def Let_def f_def d_def)
  show ?thesis
  proof (cases "d < 1 / 2")
    case True
    with r f show ?thesis by simp
  next
    case False
    then have "of_int f + 1 \<le> m + 1 / 2"
      by (simp add: d_def)
    moreover have "round_even m \<le> f + 1"
      using r by simp
    then have "of_int (round_even m) \<le> (of_int f + 1 :: rat)"
      by (metis of_int_1 of_int_add of_int_le_iff)
    ultimately show ?thesis by linarith
  qed
qed

lemma round_even_nonneg: "0 \<le> m \<Longrightarrow> 0 \<le> round_even m"
  by (auto simp: round_even_def Let_def)

lemma fl64_nonneg: "0 \<le> x \<Longrightarrow> 0 \<le> fl64 x"
  using pow2_pos [of "binade \<bar>x\<bar> - 52"]
  by (auto simp: fl64_def Let_def round_even_nonneg sgn_if intro!: mult_nonneg_nonneg)

lemma fl64_upper:
  assumes "0 < x"
  shows "fl64 x \<le> x + x / 2 ^ 53"
proof -
  let ?ulp = "pow2 (binade x - 52)"
  have ulp: "0 < ?ulp" by (rule pow2_pos)
  have "of_int (round_even (x / ?ulp)) \<le> x / ?ulp + 1 / 2"
    by (rule round_even_upper)
  then have "of_int (round_even (x / ?ulp)) * ?ulp \<le> (x / ?ulp + 1 / 2) * ?ulp"
    using ulp by (simp only: mult_le_cancel_right_pos)
  also have "\<dots> = x + ?ulp / 2"
    using ulp by (simp add: algebra_simps)
  also have "?ulp / 2 = pow2 (binade x) / 2 ^ 53"
    by (simp add: pow2_diff)
  also have "x + pow2 (binade x) / 2 ^ 53 \<le> x + x / 2 ^ 53"
    using binade_le [OF assms] by (simp add: divide_right_mono)
  finally have "of_int (round_even (x / ?ulp)) * ?ulp \<le> x + x / 2 ^ 53" .
  then show ?thesis
    using assms by (simp add: fl64_def Let_def)
qed

subsection \<open>The range of nextInt\<close>

lemma fl64_upper0:
  assumes "0 \<le> x"
  shows "fl64 x \<le> x + x / 2 ^ 53"
proof (cases "x = 0")
  case True
  then show ?thesis by (simp add: fl64_def)
next
  case False
  with assms have "0 < x" by simp
  then show ?thesis by (rule fl64_upper)
qed

lemma toInt32_id: "- 2147483648 \<le> x \<Longrightarrow> x < 2147483648 \<Longrightarrow> toInt32 x = x"
  by (simp add: toInt32_def signed_of_int signed_take_bit_int_eq_self)

lemma nextState_range: "0 \<le> fst (nextState g) \<and> fst (nextState g) \<le> 4294967293"
proof -
  have "- 2147483648 \<le> sint (state g)" "sint (state g) < 2147483648"
    using sint_ge [of "state g"] sint_lt [of "state g"] by simp_all
  then show ?thesis
    by (auto simp: nextState_def Let_def)
qed

lemma scaled_quotient_below:
  assumes "0 \<le> s" "s \<le> 4294967293" "1 \<le> e"
  shows "0 \<le> fl64 (fl64 (of_int s * of_int e) / 4294967295) \<and>
         fl64 (fl64 (of_int s * of_int e) / 4294967295) < of_int e"
proof -
  define p :: rat where "p = of_int s * of_int e"
  define a where "a = fl64 p"
  define y where "y = fl64 (a / 4294967295)"
  have e: "(0::rat) < of_int e"
    using assms by simp
  have p0: "0 \<le> p"
    using assms by (simp add: p_def)
  have "(of_int s :: rat) \<le> 4294967293"
    using assms(2) by (metis of_int_le_iff of_int_numeral)
  then have pe: "p \<le> 4294967293 * of_int e"
    using e by (simp add: p_def mult_right_mono)
  have a0: "0 \<le> a"
    using p0 by (simp add: a_def fl64_nonneg)
  have "a \<le> p + p / 2 ^ 53"
    unfolding a_def using p0 by (rule fl64_upper0)
  also have "\<dots> = p * (1 + 1 / 2 ^ 53)"
    by (simp add: algebra_simps)
  also have "\<dots> \<le> 4294967293 * of_int e * (1 + 1 / 2 ^ 53)"
    using pe by (intro mult_right_mono) simp_all
  finally have a: "a \<le> 4294967293 * of_int e * (1 + 1 / 2 ^ 53)" .
  have q0: "0 \<le> a / 4294967295"
    using a0 by simp
  then have y0: "0 \<le> y"
    by (simp add: y_def fl64_nonneg)
  have "y \<le> a / 4294967295 + a / 4294967295 / 2 ^ 53"
    using q0 unfolding y_def by (rule fl64_upper0)
  also have "\<dots> = a * ((1 + 1 / 2 ^ 53) / 4294967295)"
    by (simp add: algebra_simps)
  also have "\<dots> \<le> 4294967293 * of_int e * (1 + 1 / 2 ^ 53) * ((1 + 1 / 2 ^ 53) / 4294967295)"
    using a by (intro mult_right_mono) simp_all
  also have "\<dots> = of_int e * (4294967293 * (1 + 1 / 2 ^ 53) * (1 + 1 / 2 ^ 53) / 4294967295)"
    by (simp add: algebra_simps)
  also have "\<dots> < of_int e * 1"
    using e by (intro mult_strict_left_mono) simp_all
  finally have "y < of_int e"
    by simp
  with y0 show ?thesis
    by (simp add: y_def a_def p_def)
qed

lemma nextInt_range:
  assumes "1 \<le> e" "e \<le> 2147483647"
  shows "0 \<le> fst (nextInt e g) \<and> fst (nextInt e g) < e"
proof -
  obtain s g' where ns: "nextState g = (s, g')"
    by (cases "nextState g") auto
  have s: "0 \<le> s" "s \<le> 4294967293"
    using nextState_range [of g] ns by simp_all
  have e32: "toInt32 e = e"
    using assms by (intro toInt32_id) simp_all
  define y where "y = fl64 (fl64 (of_int s * of_int e) / 4294967295)"
  have y: "0 \<le> y" "y < of_int e"
    using scaled_quotient_below [OF s assms(1)] by (simp_all add: y_def)
  then have tr: "js_trunc y = \<lfloor>y\<rfloor>" "0 \<le> \<lfloor>y\<rfloor>" "\<lfloor>y\<rfloor> < e"
    by (simp_all add: js_trunc_def floor_less_iff)
  then have "- 2147483648 \<le> \<lfloor>y\<rfloor>" "\<lfloor>y\<rfloor> < 2147483648"
    using assms by linarith+
  then have "toInt32 \<lfloor>y\<rfloor> = \<lfloor>y\<rfloor>"
    by (rule toInt32_id)
  then show ?thesis
    using ns e32 tr by (simp add: nextInt_def Let_def y_def)
qed

lemma floor_rat_numeral: "\<lfloor>numeral a / numeral b :: rat\<rfloor> = numeral a div numeral b"
  by (metis floor_divide_of_int_eq of_int_numeral)

lemma ceiling_rat_numeral: "\<lceil>numeral a / numeral b :: rat\<rceil> = - (- numeral a div numeral b)"
  by (metis ceiling_def floor_divide_of_int_eq minus_divide_left of_int_minus of_int_numeral)

lemmas fl64_eval = fl64_def Let_def binade_def bitlength.simps pow2_def round_even_def js_trunc_def
  floor_rat_numeral ceiling_rat_numeral

lemma nextInt_eval:
  assumes "nextState g = (s, g')" "toInt32 e = e'"
    and "js_trunc (fl64 (fl64 (of_int s * of_int e') / 4294967295)) = q"
    and "0 \<le> q" "q < 2147483648"
  shows "nextInt e g = (q, g')"
proof -
  have "toInt32 q = q"
    using assms(4,5) by (intro toInt32_id) simp_all
  then show ?thesis
    using assms by (simp add: nextInt_def Let_def)
qed

lemma draw1: "nextInt 4 \<lparr>state = 339970090\<rparr> = (0, \<lparr>state = 3449400233\<rparr>)"
proof (rule nextInt_eval)
  show "nextState \<lparr>state = 339970090\<rparr> = (339970090, \<lparr>state = 3449400233\<rparr>)"
    by (simp add: nextState_def Let_def)
  show "toInt32 4 = 4"
    by (simp add: toInt32_id)
  show "js_trunc (fl64 (fl64 (of_int 339970090 * of_int 4) / 4294967295)) = 0"
    by (simp add: fl64_eval)
qed simp_all

lemma draw2: "nextInt 3 \<lparr>state = 3449400233\<rparr> = (2, \<lparr>state = 3849456703\<rparr>)"
proof (rule nextInt_eval)
  show "nextState \<lparr>state = 3449400233\<rparr> = (3449400231, \<lparr>state = 3849456703\<rparr>)"
    by (simp add: nextState_def Let_def)
  show "toInt32 3 = 3"
    by (simp add: toInt32_id)
  show "js_trunc (fl64 (fl64 (of_int 3449400231 * of_int 3) / 4294967295)) = 2"
    by (simp add: fl64_eval)
qed simp_all

lemma draw3: "nextInt 2 \<lparr>state = 3849456703\<rparr> = (1, \<lparr>state = 977434341\<rparr>)"
proof (rule nextInt_eval)
  show "nextState \<lparr>state = 3849456703\<rparr> = (3849456701, \<lparr>state = 977434341\<rparr>)"
    by (simp add: nextState_def Let_def)
  show "toInt32 2 = 2"
    by (simp add: toInt32_id)
  show "js_trunc (fl64 (fl64 (of_int 3849456701 * of_int 2) / 4294967295)) = 1"
    by (simp add: fl64_eval)
qed simp_all

lemma nextInt_rounded_draw:
  "nextInt 121078258 \<lparr>state = 4195628964\<rparr> = (118277838, \<lparr>state = 3773936468\<rparr>)"
proof (rule nextInt_eval)
  show "nextState \<lparr>state = 4195628964\<rparr> = (4195628962, \<lparr>state = 3773936468\<rparr>)"
    by (simp add: nextState_def Let_def)
  show "toInt32 121078258 = 121078258"
    by (simp add: toInt32_id)
  show "js_trunc (fl64 (fl64 (of_int 4195628962 * of_int 121078258) / 4294967295)) = 118277838"
    by (simp add: fl64_eval)
qed simp_all

subsection \<open>The shuffle\<close>

lemma length_positions: "length (positions buf) = length buf div 2"
  by (simp add: positions_def)

lemma positions_nth:
  "k < length buf div 2 \<Longrightarrow> positions buf ! k = (sint (buf ! (2 * k)), sint (buf ! (2 * k + 1)))"
  by (simp add: positions_def)

lemma swap_positions:
  assumes "j \<le> R" "2 * R + 1 < length buf"
  shows "positions (buf[2 * j := buf ! (2 * R), 2 * j + 1 := buf ! (2 * R + 1),
                        2 * R := buf ! (2 * j), 2 * R + 1 := buf ! (2 * j + 1)])
         = (positions buf)[j := positions buf ! R, R := positions buf ! j]"
proof (rule nth_equalityI)
  show "length (positions (buf[2 * j := buf ! (2 * R), 2 * j + 1 := buf ! (2 * R + 1),
                        2 * R := buf ! (2 * j), 2 * R + 1 := buf ! (2 * j + 1)]))
        = length ((positions buf)[j := positions buf ! R, R := positions buf ! j])"
    by (simp add: length_positions)
next
  fix k
  assume "k < length (positions (buf[2 * j := buf ! (2 * R), 2 * j + 1 := buf ! (2 * R + 1),
                        2 * R := buf ! (2 * j), 2 * R + 1 := buf ! (2 * j + 1)]))"
  then have k: "k < length buf div 2"
    by (simp add: length_positions)
  then have k2: "2 * k < length buf" "2 * k + 1 < length buf"
    by auto
  have R: "R < length buf div 2" and j: "j < length buf div 2"
    using assms by auto
  have odd: "2 * k + 1 \<noteq> 2 * j" "2 * k + 1 \<noteq> 2 * R" "2 * k \<noteq> 2 * j + 1" "2 * k \<noteq> 2 * R + 1"
    by presburger+
  show "positions (buf[2 * j := buf ! (2 * R), 2 * j + 1 := buf ! (2 * R + 1),
                        2 * R := buf ! (2 * j), 2 * R + 1 := buf ! (2 * j + 1)]) ! k
        = (positions buf)[j := positions buf ! R, R := positions buf ! j] ! k"
    using k k2 R j odd assms
    by (simp add: positions_nth length_positions nth_list_update)
qed

lemma shuffle_step_buffer:
  assumes "0 \<le> j" "j \<le> R" "2 * R + 1 < int (length buf)" "0 \<le> R"
  shows "i16_set (i16_set (i16_set (i16_set buf (2 * j) (i16_get buf (2 * R)))
                   (2 * j + 1) (i16_get buf (2 * R + 1)))
                   (2 * R) (i16_get buf (2 * j)))
                   (2 * R + 1) (i16_get buf (2 * j + 1))
         = buf[2 * nat j := buf ! (2 * nat R), 2 * nat j + 1 := buf ! (2 * nat R + 1),
               2 * nat R := buf ! (2 * nat j), 2 * nat R + 1 := buf ! (2 * nat j + 1)]"
proof -
  have n: "nat (2 * j) = 2 * nat j" "nat (2 * j + 1) = 2 * nat j + 1"
     "nat (2 * R) = 2 * nat R" "nat (2 * R + 1) = 2 * nat R + 1"
    using assms by (simp_all add: nat_mult_distrib nat_add_distrib)
  show ?thesis
    using assms by (simp add: i16_set_def i16_get_def n)
qed

lemma shuffle_mset:
  "2 * (n + 1) \<le> length buf \<Longrightarrow> n + 1 \<le> 2147483647 \<Longrightarrow>
   length (shuffle n g buf) = length buf \<and>
   mset (positions (shuffle n g buf)) = mset (positions buf)"
proof (induction n arbitrary: g buf)
  case 0
  then show ?case by simp
next
  case (Suc n)
  let ?R = "int (Suc n)"
  obtain j g' where ni: "nextInt (?R + 1) g = (j, g')"
    by (cases "nextInt (?R + 1) g") auto
  have j: "0 \<le> j" "j \<le> ?R"
    using nextInt_range [of "?R + 1" g] Suc.prems ni by simp_all
  let ?buf = "buf[2 * nat j := buf ! (2 * nat ?R), 2 * nat j + 1 := buf ! (2 * nat ?R + 1),
               2 * nat ?R := buf ! (2 * nat j), 2 * nat ?R + 1 := buf ! (2 * nat j + 1)]"
  have inb: "2 * ?R + 1 < int (length buf)"
    using Suc.prems by simp
  have step: "i16_set (i16_set (i16_set (i16_set buf (2 * j) (i16_get buf (2 * ?R)))
                   (2 * j + 1) (i16_get buf (2 * ?R + 1)))
                   (2 * ?R) (i16_get buf (2 * j)))
                   (2 * ?R + 1) (i16_get buf (2 * j + 1)) = ?buf"
    using shuffle_step_buffer [OF j inb] by simp
  have unfold: "shuffle (Suc n) g buf = shuffle n g' ?buf"
    using ni step by (simp add: Let_def del: of_nat_Suc)
  have len: "length ?buf = length buf"
    by simp
  have nj: "nat j \<le> Suc n" "2 * Suc n + 1 < length buf"
    using j Suc.prems by simp_all
  have nR: "nat ?R = Suc n"
    by simp
  have "positions ?buf = (positions buf)[nat j := positions buf ! Suc n, Suc n := positions buf ! nat j]"
    by (simp only: nR swap_positions [OF nj])
  moreover have "nat j < length (positions buf)" "Suc n < length (positions buf)"
    using nj by (simp_all add: length_positions)
  ultimately have ms: "mset (positions ?buf) = mset (positions buf)"
    by (simp add: mset_swap)
  have IH: "length (shuffle n g' ?buf) = length ?buf \<and>
        mset (positions (shuffle n g' ?buf)) = mset (positions ?buf)"
    using Suc.prems len by (intro Suc.IH) simp_all
  from IH have "length (shuffle (Suc n) g buf) = length buf"
    by (simp only: unfold len)
  moreover from IH have "mset (positions (shuffle (Suc n) g buf)) = mset (positions buf)"
    by (simp only: unfold ms)
  ultimately show ?case
    by blast
qed


lemma positions_Cons2: "positions (a # b # xs) = (sint a, sint b) # positions xs"
  by (simp add: positions_def map_upt_Suc del: upt_Suc)

lemma positions_row:
  "positions (concat (map (\<lambda>x. [f x, c]) xs) @ rest) = map (\<lambda>x. (sint (f x), sint c)) xs @ positions rest"
  by (induction xs) (simp_all add: positions_Cons2)

lemma positions_rows:
  "positions (concat (map (\<lambda>y. concat (map (\<lambda>x. [f x, g y]) xs)) ys))
   = concat (map (\<lambda>y. map (\<lambda>x. (sint (f x), sint (g y))) xs) ys)"
proof (induction ys)
  case Nil
  then show ?case by (simp add: positions_def)
next
  case (Cons y ys)
  show ?case
    using positions_row [of f "g y" xs "concat (map (\<lambda>y. concat (map (\<lambda>x. [f x, g y]) xs)) ys)"] Cons
    by simp
qed

lemma length_rows:
  "length (concat (map (\<lambda>y. concat (map (\<lambda>x. [f x, g y]) xs)) ys)) = 2 * length xs * length ys"
proof (induction ys)
  case Nil
  then show ?case by simp
next
  case (Cons y ys)
  have "length (concat (map (\<lambda>x. [f x, g y]) xs)) = 2 * length xs"
    by (induction xs) simp_all
  with Cons show ?case by simp
qed

lemma sint_coordinate: "n < 32768 \<Longrightarrow> sint (word_of_nat n :: 16 word) = int n"
  by (simp add: signed_of_nat signed_take_bit_int_eq_self)

lemma populate_positions:
  assumes "0 \<le> w" "w \<le> 32768" "0 \<le> h" "h \<le> 32768"
  shows "\<exists>buf. populate w h = Some buf \<and> length buf = 2 * nat w * nat h \<and>
           positions buf = map (\<lambda>(y, x). (int x, int y)) (List.product [0..<nat h] [0..<nat w])"
proof -
  let ?f = "\<lambda>x. word_of_nat x :: 16 word"
  let ?written = "concat (map (\<lambda>y. concat (map (\<lambda>x. [?f x, ?f y]) [0..<nat w])) [0..<nat h])"
  have len: "length ?written = 2 * nat w * nat h"
    by (simp add: length_rows)
  have "nat (w * h * 2) = 2 * nat w * nat h"
    using assms by (simp add: nat_mult_distrib mult.commute)
  moreover have "\<not> w * h * 2 < 0"
    using assms by (simp add: mult_nonneg_nonneg not_less)
  ultimately have pop: "populate w h = Some ?written"
    using len by (simp add: populate_def Let_def)
  have "positions ?written
          = concat (map (\<lambda>y. map (\<lambda>x. (sint (?f x), sint (?f y))) [0..<nat w]) [0..<nat h])"
    by (rule positions_rows)
  also have "\<dots> = concat (map (\<lambda>y. map (\<lambda>x. (int x, int y)) [0..<nat w]) [0..<nat h])"
    using assms by (intro arg_cong [where f = concat] map_cong refl) (simp_all add: sint_coordinate)
  also have "\<dots> = map (\<lambda>(y, x). (int x, int y)) (List.product [0..<nat h] [0..<nat w])"
    by (simp add: product_concat_map map_concat comp_def)
  finally show ?thesis
    using pop len by simp
qed

lemma grid_distinct:
  "distinct (map (\<lambda>(y, x). (int x, int y)) (List.product [0..<H] [0..<W]))"
  by (auto simp: distinct_map distinct_product inj_on_def)

lemma grid_set:
  assumes "0 \<le> w" "0 \<le> h"
  shows "set (map (\<lambda>(y, x). (int x, int y)) (List.product [0..<nat h] [0..<nat w]))
           = {0..<w} \<times> {0..<h}"
proof (rule set_eqI)
  fix p :: "int \<times> int"
  obtain a b where p: "p = (a, b)" by (cases p)
  show "p \<in> set (map (\<lambda>(y, x). (int x, int y)) (List.product [0..<nat h] [0..<nat w]))
          \<longleftrightarrow> p \<in> {0..<w} \<times> {0..<h}"
  proof
    assume "p \<in> set (map (\<lambda>(y, x). (int x, int y)) (List.product [0..<nat h] [0..<nat w]))"
    then show "p \<in> {0..<w} \<times> {0..<h}"
      by auto
  next
    assume "p \<in> {0..<w} \<times> {0..<h}"
    then have "(nat b, nat a) \<in> set (List.product [0..<nat h] [0..<nat w])"
      and "p = (int (nat a), int (nat b))"
      using p by auto
    then show "p \<in> set (map (\<lambda>(y, x). (int x, int y)) (List.product [0..<nat h] [0..<nat w]))"
      by (metis (mono_tags, lifting) image_eqI list.set_map old.prod.case)
  qed
qed

lemma generator_seed: "IndexGenerator_new 1337 = \<lparr>state = 339970090\<rparr>"
  by (simp add: IndexGenerator_new_def nextState_def Let_def)

text \<open>
  C8 (amended). For a width and a height between 1 and 32768 the generator of
  every render starts from the same state, the one that the seed 1337 leads to, so
  that the table depends on the width and the height only; and the shuffled table
  has \<open>2 * width * height\<close> entries in which every position \<open>(x, y)\<close> with
  \<open>0 \<le> x < width\<close> and \<open>0 \<le> y < height\<close> occurs exactly once, and nothing else.
\<close>

theorem sample_positions_bijective:
  assumes "1 \<le> w" "w \<le> 32768" "1 \<le> h" "h \<le> 32768"
  shows "IndexGenerator_new 1337 = \<lparr>state = 339970090\<rparr> \<and>
         samplePositions w h =
           map_option (shuffle (nat (w * h - 1)) \<lparr>state = 339970090\<rparr>) (populate w h) \<and>
         (\<exists>buf. samplePositions w h = Some buf \<and> length buf = nat (2 * w * h) \<and>
                distinct (positions buf) \<and> set (positions buf) = {0..<w} \<times> {0..<h})"
proof -
  obtain buf0 where pop: "populate w h = Some buf0" and len0: "length buf0 = 2 * nat w * nat h"
    and pos0: "positions buf0 = map (\<lambda>(y, x). (int x, int y)) (List.product [0..<nat h] [0..<nat w])"
    using populate_positions [of w h] assms by auto
  let ?n = "nat (w * h - 1)"
  let ?buf = "shuffle ?n (IndexGenerator_new 1337) buf0"
  have "1 * 1 \<le> w * h"
    using assms by (intro mult_mono) simp_all
  then have wh: "1 \<le> w * h"
    by simp
  have "w * h \<le> 32768 * 32768"
    using assms by (intro mult_mono) simp_all
  then have small: "?n + 1 \<le> 2147483647"
    using wh by simp
  define N where "N = nat w * nat h"
  have "?n = nat (w * h) - nat 1"
    using wh by (intro nat_diff_distrib) simp_all
  then have n: "?n = N - 1"
    using assms by (simp add: nat_mult_distrib N_def)
  have "nat 1 \<le> nat (w * h)"
    using wh by (intro nat_mono)
  then have N1: "1 \<le> N"
    using assms by (simp only: nat_mult_distrib N_def)
  have "length buf0 = 2 * N"
    using len0 by (simp add: N_def)
  then have fits: "2 * (?n + 1) \<le> length buf0"
    using n N1 by simp
  have sh: "length ?buf = length buf0" "mset (positions ?buf) = mset (positions buf0)"
    using shuffle_mset [OF fits small, of "IndexGenerator_new 1337"] by simp_all
  have dis: "distinct (positions ?buf)"
    using mset_eq_imp_distinct_iff [OF sh(2)] grid_distinct [of "nat h" "nat w"] pos0 by simp
  have st: "set (positions ?buf) = {0..<w} \<times> {0..<h}"
    using mset_eq_setD [OF sh(2)] grid_set [of w h] assms pos0 by simp
  have sp: "samplePositions w h = Some ?buf"
    by (simp add: samplePositions_def pop)
  have lenb: "length ?buf = nat (2 * w * h)"
    using sh(1) len0 assms by (simp add: nat_mult_distrib)
  have ex: "\<exists>buf. samplePositions w h = Some buf \<and> length buf = nat (2 * w * h) \<and>
                distinct (positions buf) \<and> set (positions buf) = {0..<w} \<times> {0..<h}"
    using sp lenb dis st by blast
  have d: "samplePositions w h =
           map_option (shuffle (nat (w * h - 1)) \<lparr>state = 339970090\<rparr>) (populate w h)"
    by (simp only: samplePositions_def generator_seed)
  show ?thesis
    using generator_seed d ex by blast
qed

lemma pop22: "populate 2 2 = Some [0, 0, 1, 0, 0, 1, 1, 1]"
  by (simp add: populate_def Let_def upt_rec)

lemma sh1: "shuffle (Suc 0) \<lparr>state = 3849456703\<rparr> [1, 1, 1, 0, 0, 1, 0, 0] = [1, 1, 1, 0, 0, 1, 0, 0]"
  by (subst shuffle.simps(2)) (simp add: draw3 i16_get_def i16_set_def Let_def del: shuffle.simps(2))

lemma sh2: "shuffle (Suc (Suc 0)) \<lparr>state = 3449400233\<rparr> [1, 1, 1, 0, 0, 1, 0, 0] = [1, 1, 1, 0, 0, 1, 0, 0]"
  by (subst shuffle.simps(2)) (simp add: draw2 sh1 i16_get_def i16_set_def Let_def del: shuffle.simps(2))

lemma sh3: "shuffle (Suc (Suc (Suc 0))) \<lparr>state = 339970090\<rparr> [0, 0, 1, 0, 0, 1, 1, 1] = [1, 1, 1, 0, 0, 1, 0, 0]"
  by (subst shuffle.simps(2)) (simp add: draw1 sh2 i16_get_def i16_set_def Let_def del: shuffle.simps(2))

lemma table_2_2: "samplePositions 2 2 = Some [1, 1, 1, 0, 0, 1, 0, 0]"
proof -
  have "nat (2 * 2 - 1) = Suc (Suc (Suc 0))"
    by simp
  then show ?thesis
    by (simp only: samplePositions_def pop22 generator_seed sh3 option.map)
qed

theorem sample_positions_bijective_witness:
  "(1::int) \<le> 2 \<and> (2::int) \<le> 32768 \<and>
   samplePositions 2 2 = Some [1, 1, 1, 0, 0, 1, 0, 0] \<and>
   positions [1, 1, 1, 0, 0, 1, 0, 0] = [(1, 1), (1, 0), (0, 1), (0, 0)] \<and>
   distinct (positions [1, 1, 1, 0, 0, 1, 0, 0]) \<and>
   set (positions [1, 1, 1, 0, 0, 1, 0, 0]) = {0..<2} \<times> {0..<2}"
proof -
  have pos: "positions [1, 1, 1, 0, 0, 1, 0, 0] = [(1, 1), (1, 0), (0, 1), (0, 0)]"
    by (simp add: positions_Cons2 positions_def)
  show ?thesis
    using sample_positions_bijective [of 2 2] table_2_2 pos by simp
qed

text \<open>
  C8 as stated fails for a width of 32769: the table is an \<^verbatim>\<open>Int16Array\<close>, the
  coordinate 32768 is stored as \<open>-32768\<close>, and the position \<open>(32768, 0)\<close> does not
  occur in the table.
\<close>

theorem sample_positions_wide_counterexample:
  "samplePositions 32769 1 \<noteq> None \<and>
   ((32768::int), (0::int)) \<in> {0..<32769} \<times> {0..<1} \<and>
   (32768, 0) \<notin> set (positions (the (samplePositions 32769 1)))"
proof -
  have "samplePositions 32769 1 \<noteq> None"
    by (simp add: samplePositions_def populate_def Let_def)
  moreover have "(32768, 0) \<notin> set (positions buf)" for buf
  proof
    assume "(32768, 0) \<in> set (positions buf)"
    then obtain a :: "16 word" where "sint a = 32768"
      by (auto simp: positions_def)
    then show False
      using sint_lt [of a] by simp
  qed
  ultimately show ?thesis by simp
qed

text \<open>
  C10. For a bound \<open>e\<close> from 1 to \<open>2^31 - 1\<close> and any state of the generator,
  \<^verbatim>\<open>nextInt(e)\<close>, computed with its product and its quotient rounded to double
  precision, lies in \<open>[0, e)\<close>; hence in the shuffle, where \<open>e = R + 1\<close> with
  \<open>1 \<le> R < width * height\<close>, the partner index \<open>I = 2 * nextInt(R + 1)\<close> and
  \<open>I + 1\<close> lie inside the buffer of \<open>2 * width * height\<close> entries.
\<close>

theorem nextInt_in_bounds:
  assumes "1 \<le> e" "e \<le> 2147483647"
  shows "0 \<le> fst (nextInt e g) \<and> fst (nextInt e g) < e \<and>
         (\<forall>R w h. 1 \<le> R \<and> R + 1 = e \<and> R < w * h \<longrightarrow>
            0 \<le> 2 * fst (nextInt (R + 1) g) \<and> 2 * fst (nextInt (R + 1) g) + 1 < 2 * w * h)"
proof -
  have range: "0 \<le> fst (nextInt e g) \<and> fst (nextInt e g) < e"
    using assms by (rule nextInt_range)
  have "0 \<le> 2 * fst (nextInt (R + 1) g) \<and> 2 * fst (nextInt (R + 1) g) + 1 < 2 * w * h"
    if "1 \<le> R" "R + 1 = e" "R < w * h" for R w h
  proof -
    have "fst (nextInt (R + 1) g) \<le> R" "0 \<le> fst (nextInt (R + 1) g)"
      using range that by simp_all
    moreover have "2 * R + 1 < 2 * (w * h)"
      using that by simp
    ultimately show ?thesis
      by (simp add: mult.assoc)
  qed
  with range show ?thesis by blast
qed

theorem nextInt_in_bounds_witness:
  "(1::int) \<le> 121078258 \<and> (121078258::int) \<le> 2147483647 \<and>
   nextInt 121078258 \<lparr>state = 4195628964\<rparr> = (118277838, \<lparr>state = 3773936468\<rparr>) \<and>
   (0::int) \<le> 118277838 \<and> (118277838::int) < 121078258 \<and>
   (1::int) \<le> 121078257 \<and> (121078257::int) + 1 = 121078258 \<and>
   (121078257::int) < 16384 * 16384 \<and>
   2 * fst (nextInt (121078257 + 1) \<lparr>state = 4195628964\<rparr>) + 1 < 2 * 16384 * 16384"
  using nextInt_in_bounds [of 121078258 "\<lparr>state = 4195628964\<rparr>"] nextInt_rounded_draw
  by simp

end
